theory Spec2Isabelle
  imports Main "HOL-Library.Word" "HOL-Library.AList"
begin

section \<open>Error codes\<close>

text \<open>
  A \<^verbatim>\<open>std::error_code\<close> is a category and an integer. The library reports operating
  system failures in \<^verbatim>\<open>std::system_category()\<close> (the value is \<^verbatim>\<open>errno\<close> or
  \<^verbatim>\<open>GetLastError()\<close>) and its own failures in a category of its own:
  \<^verbatim>\<open>storage_error_category\<close> in storage.hpp, \<^verbatim>\<open>persia_category\<close> in queue.hpp.
\<close>

datatype category = system_category | storage_error_category | persia_category

type_synonym error_code = "category \<times> int"

datatype storage_error =
  ok
  | file_size_is_too_small
  | invalid_file_signature
  | mismatch_file_size
  | mismatch_item_size
  | file_is_corrupted

fun storage_error_value :: "storage_error \<Rightarrow> int" where
  "storage_error_value ok = 0"
| "storage_error_value file_size_is_too_small = 1"
| "storage_error_value invalid_file_signature = 2"
| "storage_error_value mismatch_file_size = 3"
| "storage_error_value mismatch_item_size = 4"
| "storage_error_value file_is_corrupted = 5"

definition make_error_code :: "storage_error \<Rightarrow> error_code" where
  "make_error_code e = (storage_error_category, storage_error_value e)"

section \<open>Files, handles and the operating system\<close>

text \<open>
  The file format is read through typed views (\<^verbatim>\<open>cast<header>(0)\<close>,
  \<^verbatim>\<open>cast<record<V>>(sizeof(header))\<close>), so a file is modelled by what those views show:
  its length in bytes, the header at offset 0 and the array of whole records behind it.
  The header is meaningful when the file has at least 16 bytes, record \<open>i\<close> when the file
  reaches to the end of that record.
\<close>

type_synonym path = string

type_synonym signature_bytes = "8 word \<times> 8 word \<times> 8 word \<times> 8 word"

record header =
  signature :: signature_bytes
  item_size :: "32 word"
  capacity :: "32 word"
  size_field :: "32 word"

definition sizeof_header :: nat where
  "sizeof_header = 16"

definition zero_header :: header where
  "zero_header = \<lparr>signature = (0, 0, 0, 0), item_size = 0, capacity = 0, size_field = 0\<rparr>"

record 'r image =
  len :: nat
  hdr :: header
  recs :: "'r list"

text \<open>
  \<^verbatim>\<open>std::size_t\<close> arithmetic, on a target where it has 64 bits: the sums and products of
  sizes the code computes wrap at \<open>2 ^ 64\<close>.
\<close>

definition size_t :: "nat \<Rightarrow> nat" where
  "size_t n = n mod 2 ^ 64"

definition whole_records :: "nat \<Rightarrow> nat \<Rightarrow> nat" where
  "whole_records rsz l = (l - sizeof_header) div rsz"

text \<open>
  A file holds as many whole records as its length gives room for; the views of a
  well-formed image show exactly those.
\<close>

definition wf_image :: "nat \<Rightarrow> 'r image \<Rightarrow> bool" where
  "wf_image rsz img = (length (recs img) = whole_records rsz (len img))"

datatype platform = Win32 | Unix

datatype os_call =
  CreateFileA | GetFileSize | CreateFileMapping | MapViewOfFile
  | posix_open | posix_fstat | posix_mmap
  | std_fopen | fs_resize_file

text \<open>
  The environment decides which system calls fail for reasons outside the program
  (permissions, exhausted address space, a full disk) and with which code.
\<close>

type_synonym faults = "os_call \<Rightarrow> int option"

definition no_faults :: faults where
  "no_faults = (\<lambda>c. None)"

datatype handle = file_handle path | mapping_handle path | view_handle path

record 'r world =
  files :: "path \<rightharpoonup> 'r image"
  live :: "handle list"

definition acquire :: "handle \<Rightarrow> 'r world \<Rightarrow> 'r world" where
  "acquire h w = w\<lparr>live := h # live w\<rparr>"

definition release :: "handle \<Rightarrow> 'r world \<Rightarrow> 'r world" where
  "release h w = w\<lparr>live := remove1 h (live w)\<rparr>"

definition ENOENT :: int where "ENOENT = 2"
definition EINVAL :: int where "EINVAL = 22"
definition ERROR_FILE_NOT_FOUND :: int where "ERROR_FILE_NOT_FOUND = 2"
definition ERROR_FILE_INVALID :: int where "ERROR_FILE_INVALID = 1006"
definition INVALID_FILE_SIZE :: nat where "INVALID_FILE_SIZE = 0xFFFFFFFF"

text \<open>
  \<^verbatim>\<open>std::fopen(path, "w+b")\<close> followed by \<^verbatim>\<open>std::fclose\<close>: the file is created, or
  truncated to zero length when it exists.
\<close>

definition fopen_wb_fclose :: "faults \<Rightarrow> 'r world \<Rightarrow> path \<Rightarrow> int option \<times> 'r world" where
  "fopen_wb_fclose env w p =
     (case env std_fopen of
        Some code \<Rightarrow> (Some code, w)
      | None \<Rightarrow> (None, w\<lparr>files := (files w)(p \<mapsto> \<lparr>len = 0, hdr = zero_header, recs = []\<rparr>)\<rparr>))"

text \<open>
  \<^verbatim>\<open>std::filesystem::resize_file(path, n, ec)\<close>: the file is cut or extended with zero
  bytes to \<open>n\<close> bytes. \<open>zr\<close> is the record that zero bytes show.
\<close>

definition resize_image :: "nat \<Rightarrow> 'r \<Rightarrow> nat \<Rightarrow> 'r image \<Rightarrow> 'r image" where
  "resize_image rsz zr n img =
     \<lparr>len = n,
      hdr = (if len img < sizeof_header then zero_header else hdr img),
      recs = take (whole_records rsz n) (recs img @ replicate (whole_records rsz n) zr)\<rparr>"

definition resize_file ::
  "nat \<Rightarrow> 'r \<Rightarrow> faults \<Rightarrow> 'r world \<Rightarrow> path \<Rightarrow> nat \<Rightarrow> int option \<times> 'r world" where
  "resize_file rsz zr env w p n =
     (case env fs_resize_file of
        Some code \<Rightarrow> (Some code, w)
      | None \<Rightarrow>
         (case files w p of
            None \<Rightarrow> (Some ENOENT, w)
          | Some img \<Rightarrow> (None, w\<lparr>files := (files w)(p \<mapsto> resize_image rsz zr n img)\<rparr>)))"

section \<open>mapped_file (mapped_file.hpp)\<close>

text \<open>
  \<open>address\<close> is the mapped memory: \<open>None\<close> is \<^verbatim>\<open>nullptr\<close>, \<open>Some v\<close> the bytes seen
  through the mapping (the member \<^verbatim>\<open>address_\<close>; \<open>size_m\<close> is \<^verbatim>\<open>size_\<close>). \<open>fhandle\<close> and
  \<open>mhandle\<close> (the members \<^verbatim>\<open>file_\<close> and \<^verbatim>\<open>mapping_\<close>) are \<open>None\<close> for \<^verbatim>\<open>-1\<close>,
  \<^verbatim>\<open>INVALID_HANDLE_VALUE\<close> and \<^verbatim>\<open>NULL\<close>. \<open>mpath\<close> and \<open>mprivate\<close> record which file
  the mapping is backed by and whether it was made with \<^verbatim>\<open>MAP_PRIVATE\<close>: what is written
  through a private mapping is never carried to the file, what is written through a shared
  one (the Win32 view with \<^verbatim>\<open>FILE_MAP_WRITE\<close>) is. With one mapping of a file at a time,
  the file shows the writes of a shared mapping at the latest when it is unmapped, which is
  where the model puts them.

  The POSIX branch names \<^verbatim>\<open>PROT_RDWR\<close> and \<^verbatim>\<open>MMAP_FAILED\<close>; they are read as
  \<^verbatim>\<open>PROT_READ | PROT_WRITE\<close> and \<^verbatim>\<open>MAP_FAILED\<close>. A file of length zero cannot be
  mapped: \<^verbatim>\<open>mmap\<close> with length 0 fails with \<^verbatim>\<open>EINVAL\<close>, \<^verbatim>\<open>CreateFileMapping\<close> with
  size 0 on an empty file with \<^verbatim>\<open>ERROR_FILE_INVALID\<close>. \<^verbatim>\<open>GetFileSize(file, NULL)\<close> returns
  the low 32 bits of the length, and \<^verbatim>\<open>INVALID_FILE_SIZE\<close> when it fails; its result is
  not tested.
\<close>

record 'r mapped_file =
  address :: "'r image option"
  size_m :: nat
  fhandle :: "handle option"
  mhandle :: "handle option"
  mpath :: path
  mprivate :: bool

definition null_mapped_file :: "'r mapped_file" where
  "null_mapped_file =
     \<lparr>address = None, size_m = 0, fhandle = None, mhandle = None, mpath = [], mprivate = False\<rparr>"

definition unmap :: "'r mapped_file \<Rightarrow> 'r world \<Rightarrow> 'r world" where
  "unmap mf w =
     (case address mf of
        None \<Rightarrow> w
      | Some v \<Rightarrow>
          release (view_handle (mpath mf))
            (if mprivate mf then w else w\<lparr>files := (files w)(mpath mf \<mapsto> v)\<rparr>))"

definition close_handle :: "handle option \<Rightarrow> 'r world \<Rightarrow> 'r world" where
  "close_handle h w = (case h of None \<Rightarrow> w | Some x \<Rightarrow> release x w)"

definition dispose :: "platform \<Rightarrow> 'r world \<Rightarrow> 'r mapped_file \<Rightarrow> 'r world" where
  "dispose plat w mf =
     (case plat of
        Win32 \<Rightarrow> close_handle (fhandle mf) (close_handle (mhandle mf) (unmap mf w))
      | Unix \<Rightarrow> close_handle (fhandle mf) (unmap mf w))"

definition mapped_file_create ::
  "platform \<Rightarrow> faults \<Rightarrow> 'r world \<Rightarrow> path \<Rightarrow> (error_code + 'r mapped_file) \<times> 'r world" where
  "mapped_file_create plat env w p =
     (case plat of
        Win32 \<Rightarrow>
          (case env CreateFileA of
             Some code \<Rightarrow> (Inl (system_category, code), w)
           | None \<Rightarrow>
              (case files w p of
                 None \<Rightarrow> (Inl (system_category, ERROR_FILE_NOT_FOUND), w)
               | Some img \<Rightarrow>
                  let w1 = acquire (file_handle p) w;
                      size = (case env GetFileSize of
                                Some code \<Rightarrow> INVALID_FILE_SIZE
                              | None \<Rightarrow> len img mod 2 ^ 32)
                  in (case (case env CreateFileMapping of
                              Some code \<Rightarrow> Some code
                            | None \<Rightarrow> if len img = 0 then Some ERROR_FILE_INVALID else None) of
                        Some code \<Rightarrow>
                          (Inl (system_category, code), release (file_handle p) w1)
                      | None \<Rightarrow>
                          let w2 = acquire (mapping_handle p) w1
                          in (case env MapViewOfFile of
                                Some code \<Rightarrow>
                                  (Inl (system_category, code), release (file_handle p) w2)
                              | None \<Rightarrow>
                                  (Inr \<lparr>address = Some img, size_m = size,
                                        fhandle = Some (file_handle p),
                                        mhandle = Some (mapping_handle p),
                                        mpath = p, mprivate = False\<rparr>,
                                   acquire (view_handle p) w2)))))
      | Unix \<Rightarrow>
          (case env posix_open of
             Some code \<Rightarrow> (Inl (system_category, code), w)
           | None \<Rightarrow>
              (case files w p of
                 None \<Rightarrow> (Inl (system_category, ENOENT), w)
               | Some img \<Rightarrow>
                  let w1 = acquire (file_handle p) w
                  in (case env posix_fstat of
                        Some code \<Rightarrow>
                          (Inl (system_category, code), release (file_handle p) w1)
                      | None \<Rightarrow>
                          let size = len img
                          in (case (case env posix_mmap of
                                      Some code \<Rightarrow> Some code
                                    | None \<Rightarrow> if size = 0 then Some EINVAL else None) of
                                Some code \<Rightarrow>
                                  (Inl (system_category, code), release (file_handle p) w1)
                              | None \<Rightarrow>
                                  (Inr \<lparr>address = Some img, size_m = size,
                                        fhandle = Some (file_handle p),
                                        mhandle = None,
                                        mpath = p, mprivate = True\<rparr>,
                                   acquire (view_handle p) w1))))))"

section \<open>storage (storage.hpp): the free-stack variant\<close>

text \<open>
  The template parameters: \<open>key_of\<close> is \<^verbatim>\<open>Adapter::key_of\<close>, \<open>sizeof_value\<close> is
  \<^verbatim>\<open>sizeof(V)\<close>, \<open>sizeof_record\<close> is \<^verbatim>\<open>sizeof(detail::record<V>)\<close>, \<open>value_init\<close> is
  \<^verbatim>\<open>V{}\<close> and \<open>zero_value\<close> is the value that zero bytes show.
\<close>

record ('k, 'v) layout =
  key_of :: "'v \<Rightarrow> 'k"
  sizeof_value :: nat
  sizeof_record :: nat
  value_init :: 'v
  zero_value :: 'v

type_synonym storage_index = "32 word"

definition marker_empty :: "32 word" where
  "marker_empty = 0"

definition marker_occupied :: "32 word" where
  "marker_occupied = 0xFEEDDA1A"

record 'v record_a =
  marker :: "32 word"
  data :: 'v

definition empty_record :: "('k, 'v) layout \<Rightarrow> 'v record_a" where
  "empty_record L = \<lparr>marker = marker_empty, data = value_init L\<rparr>"

definition zero_record :: "('k, 'v) layout \<Rightarrow> 'v record_a" where
  "zero_record L = \<lparr>marker = 0, data = zero_value L\<rparr>"

text \<open>
  \<^verbatim>\<open>std::vector<storage_index>\<close> with its capacity, which \<^verbatim>\<open>storage::capacity()\<close> reads.
  A \<^verbatim>\<open>push_back\<close> into a full vector reallocates; the growth is the implementation's
  (doubling here).
\<close>

record 'a vector =
  elems :: "'a list"
  reserved :: nat

definition vector_new :: "'a vector" where
  "vector_new = \<lparr>elems = [], reserved = 0\<rparr>"

definition reserve :: "nat \<Rightarrow> 'a vector \<Rightarrow> 'a vector" where
  "reserve n v = v\<lparr>reserved := max (reserved v) n\<rparr>"

definition push_back :: "'a \<Rightarrow> 'a vector \<Rightarrow> 'a vector" where
  "push_back x v =
     \<lparr>elems = elems v @ [x],
      reserved = (if length (elems v) < reserved v then reserved v else max 1 (2 * reserved v))\<rparr>"

definition pop_back :: "'a vector \<Rightarrow> 'a vector" where
  "pop_back v = v\<lparr>elems := butlast (elems v)\<rparr>"

definition vector_back :: "'a vector \<Rightarrow> 'a" where
  "vector_back v = last (elems v)"

text \<open>
  \<^verbatim>\<open>std::unordered_map<Key, storage_index>\<close> as an association list; its iteration order
  (unspecified in C++) is the order of insertion.
\<close>

type_synonym 'k indices = "('k \<times> storage_index) list"

definition try_emplace :: "'k \<Rightarrow> storage_index \<Rightarrow> 'k indices \<Rightarrow> 'k indices \<times> bool" where
  "try_emplace k i m = (case map_of m k of Some j \<Rightarrow> (m, False) | None \<Rightarrow> (m @ [(k, i)], True))"

text \<open>The loop \<^verbatim>\<open>for(auto i = a; i != b; ++i)\<close> over \<^verbatim>\<open>std::uint32_t\<close>.\<close>

definition word_range :: "32 word \<Rightarrow> 32 word \<Rightarrow> 32 word list" where
  "word_range a b = map (\<lambda>k. a + of_nat k) [0..<unat (b - a)]"

text \<open>
  The members \<^verbatim>\<open>header_\<close> and \<^verbatim>\<open>records_\<close> point into the mapping that
  \<^verbatim>\<open>mapped_file_\<close> owns: they are read and written through \<open>address (mfile s)\<close>.
\<close>

record ('k, 'v) storage =
  occupied_indices :: "'k indices"
  free_indices :: "storage_index vector"
  mfile :: "'v record_a mapped_file"

definition records :: "('k, 'v) storage \<Rightarrow> 'v record_a list" where
  "records s = (case address (mfile s) of None \<Rightarrow> [] | Some v \<Rightarrow> recs v)"

definition poke :: "storage_index \<Rightarrow> ('r \<Rightarrow> 'r) \<Rightarrow> 'r image \<Rightarrow> 'r image" where
  "poke i f v = v\<lparr>recs := (recs v)[unat i := f (recs v ! unat i)]\<rparr>"

definition update_record ::
  "storage_index \<Rightarrow> ('v record_a \<Rightarrow> 'v record_a) \<Rightarrow> ('k, 'v) storage \<Rightarrow> ('k, 'v) storage" where
  "update_record i f s = s\<lparr>mfile := (mfile s)\<lparr>address := map_option (poke i f) (address (mfile s))\<rparr>\<rparr>"

definition storage_capacity :: "('k, 'v) storage \<Rightarrow> nat" where
  "storage_capacity s = reserved (free_indices s)"

definition storage_size :: "('k, 'v) storage \<Rightarrow> nat" where
  "storage_size s = length (occupied_indices s)"

definition storage_empty :: "('k, 'v) storage \<Rightarrow> bool" where
  "storage_empty s = (occupied_indices s = [])"

definition fully_occupied :: "('k, 'v) storage \<Rightarrow> bool" where
  "fully_occupied s = (elems (free_indices s) = [])"

definition storage_insert ::
  "('k, 'v) layout \<Rightarrow> ('k, 'v) storage \<Rightarrow> 'v \<Rightarrow> bool \<times> ('k, 'v) storage" where
  "storage_insert L s val =
     (if elems (free_indices s) = [] then (False, s)
      else
        let index = vector_back (free_indices s);
            s1 = s\<lparr>free_indices := pop_back (free_indices s)\<rparr>;
            key = key_of L val;
            emplaced = try_emplace key index (occupied_indices s1)
        in if \<not> snd emplaced then (False, s1)
           else (True,
                 update_record index (\<lambda>r. r\<lparr>marker := marker_occupied, data := val\<rparr>)
                   (s1\<lparr>occupied_indices := fst emplaced\<rparr>)))"

definition storage_insert_or_assign ::
  "('k, 'v) layout \<Rightarrow> ('k, 'v) storage \<Rightarrow> 'v \<Rightarrow> bool \<times> ('k, 'v) storage" where
  "storage_insert_or_assign L s val =
     (let key = key_of L val;
          emplaced = try_emplace key 0 (occupied_indices s)
      in if snd emplaced then
           (if elems (free_indices s) = []
              then (False, s\<lparr>occupied_indices := AList.delete key (fst emplaced)\<rparr>)
            else
              (let index = vector_back (free_indices s);
                   s1 = s\<lparr>free_indices := pop_back (free_indices s),
                          occupied_indices := AList.update key index (fst emplaced)\<rparr>
               in (True,
                   update_record index (\<lambda>r. r\<lparr>marker := marker_occupied, data := val\<rparr>) s1)))
         else
           (case map_of (occupied_indices s) key of
              Some index \<Rightarrow> (True, update_record index (\<lambda>r. r\<lparr>data := val\<rparr>) s)
            | None \<Rightarrow> (True, s)))"

definition storage_erase :: "('k, 'v) storage \<Rightarrow> 'k \<Rightarrow> bool \<times> ('k, 'v) storage" where
  "storage_erase s key =
     (case map_of (occupied_indices s) key of
        None \<Rightarrow> (False, s)
      | Some index \<Rightarrow>
          (True,
           (update_record index (\<lambda>r. r\<lparr>marker := marker_empty\<rparr>)
              (s\<lparr>free_indices := push_back index (free_indices s)\<rparr>))
             \<lparr>occupied_indices := AList.delete key (occupied_indices s)\<rparr>))"

definition storage_find :: "('k, 'v) storage \<Rightarrow> 'k \<Rightarrow> 'v option" where
  "storage_find s key =
     (case map_of (occupied_indices s) key of
        None \<Rightarrow> None
      | Some index \<Rightarrow> Some (data (records s ! unat index)))"

definition storage_clear :: "('k, 'v) storage \<Rightarrow> ('k, 'v) storage" where
  "storage_clear s =
     (fold (\<lambda>(key, index) t.
              (update_record index (\<lambda>r. r\<lparr>marker := marker_empty\<rparr>) t)
                \<lparr>free_indices := push_back index (free_indices t)\<rparr>)
        (occupied_indices s) s)\<lparr>occupied_indices := []\<rparr>"

text \<open>Iteration from \<^verbatim>\<open>begin()\<close> to \<^verbatim>\<open>end()\<close>: the values the iterator shows.\<close>

definition storage_items :: "('k, 'v) storage \<Rightarrow> 'v list" where
  "storage_items s = map (\<lambda>(key, index). data (records s ! unat index)) (occupied_indices s)"

text \<open>The destructor of a storage: its \<^verbatim>\<open>mapped_file_\<close> is disposed.\<close>

definition storage_close :: "platform \<Rightarrow> 'v record_a world \<Rightarrow> ('k, 'v) storage \<Rightarrow> 'v record_a world" where
  "storage_close plat w s = dispose plat w (mfile s)"

definition bad_signature :: "header \<Rightarrow> bool" where
  "bad_signature h =
     (case signature h of (a, b, c, d) \<Rightarrow> a \<noteq> 0xDA \<or> b \<noteq> 0x1A \<or> c \<noteq> 0xF1 \<or> d \<noteq> 0x1E)"

text \<open>
  The scan of \<^verbatim>\<open>open\<close> and \<^verbatim>\<open>expand\<close> over the records \<open>0 .. capacity - 1\<close>: an empty
  record's index is pushed on the free stack, an occupied one's is stored under its key
  (\<^verbatim>\<open>occupied_indices[key] = i\<close>), any other marker stops the scan.
\<close>

fun scan ::
  "('v \<Rightarrow> 'k) \<Rightarrow> 'v record_a list \<Rightarrow> storage_index list \<Rightarrow> 'k indices \<Rightarrow> storage_index vector
     \<Rightarrow> storage_error + ('k indices \<times> storage_index vector)" where
  "scan kf rs [] occ free = Inr (occ, free)"
| "scan kf rs (i # is) occ free =
     (if marker (rs ! unat i) = marker_empty then scan kf rs is occ (push_back i free)
      else if marker (rs ! unat i) = marker_occupied
        then scan kf rs is (AList.update (kf (data (rs ! unat i))) i occ) free
      else Inl file_is_corrupted)"

definition storage_create ::
  "platform \<Rightarrow> faults \<Rightarrow> ('k, 'v) layout \<Rightarrow> 'v record_a world \<Rightarrow> path \<Rightarrow> 32 word
     \<Rightarrow> (error_code + ('k, 'v) storage) \<times> 'v record_a world" where
  "storage_create plat env L w p initial_capacity =
     (if initial_capacity = 0 then (Inl (make_error_code file_size_is_too_small), w)
      else
        (case fopen_wb_fclose env w p of
          (Some code, w1) \<Rightarrow> (Inl (system_category, code), w1)
        | (None, w1) \<Rightarrow>
            (case resize_file (sizeof_record L) (zero_record L) env w1 p
                    (size_t (sizeof_header + unat initial_capacity * sizeof_record L)) of
                 (Some code, w2) \<Rightarrow> (Inl (system_category, code), w2)
               | (None, w2) \<Rightarrow>
                   (case mapped_file_create plat env w2 p of
                      (Inl ec, w3) \<Rightarrow> (Inl ec, w3)
                    | (Inr mf, w3) \<Rightarrow>
                        (case address mf of
                           None \<Rightarrow> (Inl (system_category, 0), dispose plat w3 mf)
                         | Some v \<Rightarrow>
                             let h = (hdr v)\<lparr>signature := (0xDA, 0x1A, 0xF1, 0x1E),
                                             item_size := of_nat (sizeof_value L),
                                             capacity := initial_capacity\<rparr>;
                                 free = fold push_back (word_range 0 initial_capacity)
                                          (reserve (unat initial_capacity) vector_new);
                                 rs = fold (\<lambda>i xs. xs[unat i := empty_record L])
                                        (word_range 0 initial_capacity) (recs v)
                             in (Inr \<lparr>occupied_indices = [], free_indices = free,
                                      mfile = mf\<lparr>address := Some (v\<lparr>hdr := h, recs := rs\<rparr>)\<rparr>\<rparr>,
                                 w3))))))"

definition storage_expand ::
  "platform \<Rightarrow> faults \<Rightarrow> ('k, 'v) layout \<Rightarrow> 'v record_a world \<Rightarrow> path \<Rightarrow> 32 word
     \<Rightarrow> (error_code + ('k, 'v) storage) \<times> 'v record_a world" where
  "storage_expand plat env L w p initial_capacity =
     (case resize_file (sizeof_record L) (zero_record L) env w p
             (size_t (sizeof_header + unat initial_capacity * sizeof_record L)) of
        (Some code, w1) \<Rightarrow> (Inl (system_category, code), w1)
      | (None, w1) \<Rightarrow>
          (case mapped_file_create plat env w1 p of
             (Inl ec, w2) \<Rightarrow> (Inl ec, w2)
           | (Inr mf, w2) \<Rightarrow>
               (case address mf of
                  None \<Rightarrow> (Inl (system_category, 0), dispose plat w2 mf)
                | Some v \<Rightarrow>
                    (case scan (key_of L) (recs v) (word_range 0 (capacity (hdr v))) []
                            (reserve (unat initial_capacity) vector_new) of
                       Inl e \<Rightarrow> (Inl (make_error_code e), dispose plat w2 mf)
                     | Inr (occ, free) \<Rightarrow>
                         let added = word_range (capacity (hdr v)) initial_capacity;
                             rs = fold (\<lambda>i xs. xs[unat i := empty_record L]) added (recs v);
                             free1 = fold push_back added free;
                             h = (hdr v)\<lparr>capacity := initial_capacity\<rparr>
                         in (Inr \<lparr>occupied_indices = occ, free_indices = free1,
                                  mfile = mf\<lparr>address := Some (v\<lparr>hdr := h, recs := rs\<rparr>)\<rparr>\<rparr>,
                             w2)))))"

definition storage_open ::
  "platform \<Rightarrow> faults \<Rightarrow> ('k, 'v) layout \<Rightarrow> 'v record_a world \<Rightarrow> path \<Rightarrow> 32 word
     \<Rightarrow> (error_code + ('k, 'v) storage) \<times> 'v record_a world" where
  "storage_open plat env L w p initial_capacity =
     (case mapped_file_create plat env w p of
        (Inl ec, w1) \<Rightarrow> (Inl ec, w1)
      | (Inr mf, w1) \<Rightarrow>
          (case address mf of
             None \<Rightarrow> (Inl (system_category, 0), dispose plat w1 mf)
           | Some v \<Rightarrow>
               if size_m mf < size_t (sizeof_header + sizeof_record L)
                 then (Inl (make_error_code file_size_is_too_small), dispose plat w1 mf)
               else if bad_signature (hdr v)
                 then (Inl (make_error_code invalid_file_signature), dispose plat w1 mf)
               else if size_m mf \<noteq>
                         size_t (sizeof_header + unat (capacity (hdr v)) * sizeof_record L)
                 then (Inl (make_error_code mismatch_file_size), dispose plat w1 mf)
               else if sizeof_value L \<noteq> unat (item_size (hdr v))
                 then (Inl (make_error_code mismatch_item_size), dispose plat w1 mf)
               else if capacity (hdr v) < initial_capacity
                 then storage_expand plat env L (dispose plat w1 mf) p initial_capacity
               else
                 (case scan (key_of L) (recs v) (word_range 0 (capacity (hdr v))) []
                         (reserve (unat (capacity (hdr v))) vector_new) of
                    Inl e \<Rightarrow> (Inl (make_error_code e), dispose plat w1 mf)
                  | Inr (occ, free) \<Rightarrow>
                      (Inr \<lparr>occupied_indices = occ, free_indices = free, mfile = mf\<rparr>, w1))))"

section \<open>map and detail::storage (queue.hpp): the ring variant\<close>

datatype error =
  error_ok
  | error_file_size_is_too_small
  | error_invalid_file_signature
  | error_mismatch_file_size
  | error_mismatch_item_size
  | duplicated_key
  | storage_is_full

fun error_value :: "error \<Rightarrow> int" where
  "error_value error_ok = 0"
| "error_value error_file_size_is_too_small = 1"
| "error_value error_invalid_file_signature = 2"
| "error_value error_mismatch_file_size = 3"
| "error_value error_mismatch_item_size = 4"
| "error_value duplicated_key = 5"
| "error_value storage_is_full = 6"

definition make_persia_error_code :: "error \<Rightarrow> error_code" where
  "make_persia_error_code e = (persia_category, error_value e)"

text \<open>
  \<^verbatim>\<open>detail::record<T>\<close> of queue.hpp: the members \<^verbatim>\<open>previous\<close>, \<^verbatim>\<open>next\<close> and
  \<^verbatim>\<open>data\<close>. Slot 0 anchors the occupied ring, slot 1 the free ring.
\<close>

record 'v ring_record =
  rprevious :: "32 word"
  rnext :: "32 word"
  rdata :: 'v

definition first_occupied_index :: storage_index where
  "first_occupied_index = 0"

definition first_free_index :: storage_index where
  "first_free_index = 1"



text \<open>
  \<^verbatim>\<open>detail::storage<T>\<close>: \<^verbatim>\<open>header_\<close> and \<^verbatim>\<open>records_\<close> point into the mapping of
  \<^verbatim>\<open>file_\<close>, the \<open>dfile\<close> of the model.
\<close>

record 'v dstorage =
  dfile :: "'v ring_record mapped_file"

definition set_previous :: "storage_index \<Rightarrow> storage_index \<Rightarrow> 'v ring_record list \<Rightarrow> 'v ring_record list" where
  "set_previous i x rs = rs[unat i := (rs ! unat i)\<lparr>rprevious := x\<rparr>]"

definition set_next :: "storage_index \<Rightarrow> storage_index \<Rightarrow> 'v ring_record list \<Rightarrow> 'v ring_record list" where
  "set_next i x rs = rs[unat i := (rs ! unat i)\<lparr>rnext := x\<rparr>]"

definition set_data :: "storage_index \<Rightarrow> 'v \<Rightarrow> 'v ring_record list \<Rightarrow> 'v ring_record list" where
  "set_data i x rs = rs[unat i := (rs ! unat i)\<lparr>rdata := x\<rparr>]"

text \<open>
  \<^verbatim>\<open>add\<close>: the index taken is the free sentinel's \<^verbatim>\<open>next\<close>; when that is the sentinel
  itself the free ring is empty and the result is 0. \<open>ring_link\<close> is the relinking: the
  pointers \<^verbatim>\<open>next_free\<close> and \<^verbatim>\<open>next_occupied\<close> are taken before the links they are
  computed from are overwritten, and each assignment of the source is one update, in the
  source's order.
\<close>

definition ring_link :: "storage_index \<Rightarrow> 'v \<Rightarrow> 'v ring_record list \<Rightarrow> 'v ring_record list" where
  "ring_link index val rs =
     (let next_free = rnext (rs ! unat index);
          rs1 = set_previous next_free first_free_index rs;
          rs2 = set_next first_free_index (rnext (rs1 ! unat index)) rs1;
          next_occupied = rnext (rs2 ! unat first_occupied_index);
          rs3 = set_previous index first_occupied_index rs2;
          rs4 = set_next index (rnext (rs3 ! unat first_occupied_index)) rs3;
          rs5 = set_previous next_occupied index rs4;
          rs6 = set_next first_occupied_index index rs5
      in set_data index val rs6)"

definition detail_storage_add :: "'v dstorage \<Rightarrow> 'v \<Rightarrow> storage_index \<times> 'v dstorage" where
  "detail_storage_add st val =
     (case address (dfile st) of
        None \<Rightarrow> (0, st)
      | Some v \<Rightarrow>
          (let index = rnext (recs v ! unat first_free_index)
           in if index = first_free_index then (0, st)
              else (index,
                    st\<lparr>dfile := (dfile st)\<lparr>address :=
                          Some (v\<lparr>recs := ring_link index val (recs v),
                                  hdr := (hdr v)\<lparr>size_field := size_field (hdr v) + 1\<rparr>\<rparr>)\<rparr>\<rparr>)))"

definition detail_storage_capacity :: "'v dstorage \<Rightarrow> 32 word" where
  "detail_storage_capacity st = (case address (dfile st) of None \<Rightarrow> 0 | Some v \<Rightarrow> capacity (hdr v))"






text \<open>\<^verbatim>\<open>persia::map\<close>: the index \<^verbatim>\<open>indices_\<close> and the ring storage \<^verbatim>\<open>storage_\<close>.\<close>

record ('k, 'v) persia_map =
  indices :: "'k indices"
  dstore :: "'v dstorage"

definition map_size :: "('k, 'v) persia_map \<Rightarrow> nat" where
  "map_size m = length (indices m)"

definition map_insert ::
  "('k, 'v) layout \<Rightarrow> ('k, 'v) persia_map \<Rightarrow> 'v \<Rightarrow> (error_code + unit) \<times> ('k, 'v) persia_map" where
  "map_insert L m val =
     (let key = key_of L val;
          emplaced = try_emplace key 0 (indices m)
      in if \<not> snd emplaced
           then (Inl (make_persia_error_code duplicated_key), m)
         else
           (let added = detail_storage_add (dstore m) val
            in if fst added = 0
                 then (Inl (make_persia_error_code storage_is_full),
                       m\<lparr>indices := fst emplaced, dstore := snd added\<rparr>)
               else (Inr (),
                     m\<lparr>indices := AList.update key (fst added) (fst emplaced),
                       dstore := snd added\<rparr>)))"

definition map_find :: "('k, 'v) persia_map \<Rightarrow> 'k \<Rightarrow> 'v option" where
  "map_find m key =
     (case map_of (indices m) key of
        None \<Rightarrow> None
      | Some index \<Rightarrow>
          (case address (dfile (dstore m)) of
             None \<Rightarrow> None
           | Some v \<Rightarrow> Some (rdata (recs v ! unat index))))"

section \<open>Sessions\<close>

text \<open>
  A session is what a program does with one store at a time, as the test scenarios do:
  it creates or opens a store when none is open, works on the open store, and drops it.
\<close>

datatype ('k, 'v) operation =
  Create path "32 word"
  | Open path "32 word"
  | Insert 'v
  | InsertOrAssign 'v
  | Erase 'k
  | Clear
  | Drop

type_synonym ('k, 'v) session = "'v record_a world \<times> ('k, 'v) storage option"

fun opened ::
  "(error_code + ('k, 'v) storage) \<times> 'v record_a world \<Rightarrow> ('k, 'v) session" where
  "opened (Inl ec, w) = (w, None)"
| "opened (Inr s, w) = (w, Some s)"

fun step ::
  "platform \<Rightarrow> faults \<Rightarrow> ('k, 'v) layout \<Rightarrow> ('k, 'v) operation \<Rightarrow> ('k, 'v) session
     \<Rightarrow> ('k, 'v) session" where
  "step plat env L (Create p c) (w, None) = opened (storage_create plat env L w p c)"
| "step plat env L (Open p c) (w, None) = opened (storage_open plat env L w p c)"
| "step plat env L (Insert val) (w, Some s) = (w, Some (snd (storage_insert L s val)))"
| "step plat env L (InsertOrAssign val) (w, Some s) =
     (w, Some (snd (storage_insert_or_assign L s val)))"
| "step plat env L (Erase key) (w, Some s) = (w, Some (snd (storage_erase s key)))"
| "step plat env L Clear (w, Some s) = (w, Some (storage_clear s))"
| "step plat env L Drop (w, Some s) = (storage_close plat w s, None)"
| "step plat env L x (w, so) = (w, so)"

definition run ::
  "platform \<Rightarrow> faults \<Rightarrow> ('k, 'v) layout \<Rightarrow> ('k, 'v) operation list \<Rightarrow> ('k, 'v) session
     \<Rightarrow> ('k, 'v) session" where
  "run plat env L ops st = fold (step plat env L) ops st"

section \<open>The test suite's item\<close>

text \<open>
  \<^verbatim>\<open>struct item { int key; int data; }\<close> of the storage tests, with \<^verbatim>\<open>key_of\<close> the key:
  8 bytes, in a 16-byte record of either variant.
\<close>

definition item_layout :: "(int, int \<times> int) layout" where
  "item_layout =
     \<lparr>key_of = fst, sizeof_value = 8, sizeof_record = 16, value_init = (0, 0), zero_value = (0, 0)\<rparr>"

definition empty_world :: "'r world" where
  "empty_world = \<lparr>files = Map.empty, live = []\<rparr>"

definition test_pmap :: path where
  "test_pmap = ''test.pmap''"

text \<open>
  The store that \<^verbatim>\<open>storage::create("test.pmap", 2)\<close> returns in an empty directory of a
  Win32 system, and the same store after \<^verbatim>\<open>insert(item{1, 1})\<close>.
\<close>

definition created2 :: "(int, int \<times> int) storage" where
  "created2 =
     \<lparr>occupied_indices = [],
      free_indices = \<lparr>elems = [0, 1], reserved = 2\<rparr>,
      mfile =
        \<lparr>address =
           Some \<lparr>len = 48,
                 hdr = \<lparr>signature = (0xDA, 0x1A, 0xF1, 0x1E), item_size = 8, capacity = 2,
                        size_field = 0\<rparr>,
                 recs = [\<lparr>marker = 0, data = (0, 0)\<rparr>, \<lparr>marker = 0, data = (0, 0)\<rparr>]\<rparr>,
         size_m = 48, fhandle = Some (file_handle test_pmap),
         mhandle = Some (mapping_handle test_pmap), mpath = test_pmap, mprivate = False\<rparr>\<rparr>"

definition one_of_two :: "(int, int \<times> int) storage" where
  "one_of_two =
     \<lparr>occupied_indices = [(1, 1)],
      free_indices = \<lparr>elems = [0], reserved = 2\<rparr>,
      mfile =
        \<lparr>address =
           Some \<lparr>len = 48,
                 hdr = \<lparr>signature = (0xDA, 0x1A, 0xF1, 0x1E), item_size = 8, capacity = 2,
                        size_field = 0\<rparr>,
                 recs = [\<lparr>marker = 0, data = (0, 0)\<rparr>,
                         \<lparr>marker = 0xFEEDDA1A, data = (1, 1)\<rparr>]\<rparr>,
         size_m = 48, fhandle = Some (file_handle test_pmap),
         mhandle = Some (mapping_handle test_pmap), mpath = test_pmap, mprivate = False\<rparr>\<rparr>"

section \<open>The invariant of the key index\<close>

text \<open>
  The occupied slots are the records of the mapping whose marker is \<^verbatim>\<open>occupied\<close>; the
  declared capacity is the header's \<^verbatim>\<open>capacity\<close>; the allocator tracks the indices on the
  free stack.
\<close>

definition occupied_slots :: "('k, 'v) storage \<Rightarrow> nat" where
  "occupied_slots s = length (filter (\<lambda>r. marker r = marker_occupied) (records s))"

definition declared_capacity :: "('k, 'v) storage \<Rightarrow> nat" where
  "declared_capacity s =
     (case address (mfile s) of None \<Rightarrow> 0 | Some v \<Rightarrow> unat (capacity (hdr v)))"

definition index_invariant :: "('k, 'v) storage \<Rightarrow> bool" where
  "index_invariant s =
     (storage_size s = occupied_slots s
      \<and> occupied_slots s + length (elems (free_indices s)) = declared_capacity s)"

section \<open>Fixtures of the ring variant and of a POSIX system\<close>

definition queue_pmap :: path where
  "queue_pmap = ''queue.pmap''"

text \<open>
  A \<^verbatim>\<open>persia::map\<close> of capacity 1 over a ring file: slot 0 anchors the empty occupied
  ring, slot 1 the free ring, which holds slot 2. \<open>ring_full\<close> is the same map after
  \<^verbatim>\<open>insert(item{1, 1})\<close>.
\<close>

definition ring_fresh :: "(int, int \<times> int) persia_map" where
  "ring_fresh =
     \<lparr>indices = [],
      dstore =
        \<lparr>dfile =
           \<lparr>address =
              Some \<lparr>len = 64,
                    hdr = \<lparr>signature = (0xDA, 0x1A, 0xF1, 0x1E), item_size = 8, capacity = 1,
                           size_field = 0\<rparr>,
                    recs = [\<lparr>rprevious = 0, rnext = 0, rdata = (0, 0)\<rparr>,
                            \<lparr>rprevious = 2, rnext = 2, rdata = (0, 0)\<rparr>,
                            \<lparr>rprevious = 1, rnext = 1, rdata = (0, 0)\<rparr>]\<rparr>,
            size_m = 64, fhandle = Some (file_handle queue_pmap), mhandle = None,
            mpath = queue_pmap, mprivate = True\<rparr>\<rparr>\<rparr>"

definition ring_full :: "(int, int \<times> int) persia_map" where
  "ring_full =
     \<lparr>indices = [(1, 2)],
      dstore =
        \<lparr>dfile =
           \<lparr>address =
              Some \<lparr>len = 64,
                    hdr = \<lparr>signature = (0xDA, 0x1A, 0xF1, 0x1E), item_size = 8, capacity = 1,
                           size_field = 1\<rparr>,
                    recs = [\<lparr>rprevious = 2, rnext = 2, rdata = (0, 0)\<rparr>,
                            \<lparr>rprevious = 1, rnext = 1, rdata = (0, 0)\<rparr>,
                            \<lparr>rprevious = 0, rnext = 0, rdata = (1, 1)\<rparr>]\<rparr>,
            size_m = 64, fhandle = Some (file_handle queue_pmap), mhandle = None,
            mpath = queue_pmap, mprivate = True\<rparr>\<rparr>\<rparr>"

text \<open>
  The free ring has a slot to give when the free sentinel's \<^verbatim>\<open>next\<close> is not the sentinel
  itself.
\<close>

definition ring_has_free_slot :: "'v dstorage \<Rightarrow> bool" where
  "ring_has_free_slot st =
     (case address (dfile st) of
        None \<Rightarrow> False
      | Some v \<Rightarrow> rnext (recs v ! unat first_free_index) \<noteq> first_free_index)"

text \<open>
  The store that \<^verbatim>\<open>storage::create("test.pmap", 1)\<close> returns on a POSIX system, the same
  store after \<^verbatim>\<open>insert(item{1, 1})\<close>, and the file that \<^verbatim>\<open>resize_file\<close> made: 32 zero
  bytes.
\<close>

definition created1 :: "(int, int \<times> int) storage" where
  "created1 =
     \<lparr>occupied_indices = [],
      free_indices = \<lparr>elems = [0], reserved = 1\<rparr>,
      mfile =
        \<lparr>address =
           Some \<lparr>len = 32,
                 hdr = \<lparr>signature = (0xDA, 0x1A, 0xF1, 0x1E), item_size = 8, capacity = 1,
                        size_field = 0\<rparr>,
                 recs = [\<lparr>marker = 0, data = (0, 0)\<rparr>]\<rparr>,
         size_m = 32, fhandle = Some (file_handle test_pmap),
         mhandle = None, mpath = test_pmap, mprivate = True\<rparr>\<rparr>"

definition inserted1 :: "(int, int \<times> int) storage" where
  "inserted1 =
     \<lparr>occupied_indices = [(1, 0)],
      free_indices = \<lparr>elems = [], reserved = 1\<rparr>,
      mfile =
        \<lparr>address =
           Some \<lparr>len = 32,
                 hdr = \<lparr>signature = (0xDA, 0x1A, 0xF1, 0x1E), item_size = 8, capacity = 1,
                        size_field = 0\<rparr>,
                 recs = [\<lparr>marker = 0xFEEDDA1A, data = (1, 1)\<rparr>]\<rparr>,
         size_m = 32, fhandle = Some (file_handle test_pmap),
         mhandle = None, mpath = test_pmap, mprivate = True\<rparr>\<rparr>"

definition zero_file1 :: "(int \<times> int) record_a image" where
  "zero_file1 = \<lparr>len = 32, hdr = zero_header, recs = [\<lparr>marker = 0, data = (0, 0)\<rparr>]\<rparr>"

section \<open>Files for the checks of open\<close>

definition dummy :: path where
  "dummy = ''dummy''"

definition empty_file :: "'r image" where
  "empty_file = \<lparr>len = 0, hdr = zero_header, recs = []\<rparr>"

definition magic_header :: "32 word \<Rightarrow> 32 word \<Rightarrow> header" where
  "magic_header isz cap =
     \<lparr>signature = (0xDA, 0x1A, 0xF1, 0x1E), item_size = isz, capacity = cap, size_field = 0\<rparr>"

definition flat_file :: "nat \<Rightarrow> header \<Rightarrow> nat \<Rightarrow> (int \<times> int) record_a image" where
  "flat_file l h n = \<lparr>len = l, hdr = h, recs = replicate n \<lparr>marker = 0, data = (0, 0)\<rparr>\<rparr>"



definition single :: "path \<Rightarrow> 'r image \<Rightarrow> 'r world" where
  "single p img = \<lparr>files = [p \<mapsto> img], live = []\<rparr>"

section \<open>What a session does to the files\<close>

text \<open>
  \<open>kept\<close>: a file that exists still exists; \<open>not_shrunk\<close>: it exists and is at least as
  long. \<open>coherent\<close>: the mapping of the open store has the length of the file it maps.
  \<open>small_files\<close> and \<open>small_request\<close>: lengths that \<^verbatim>\<open>GetFileSize(file, NULL)\<close>, which
  returns the low 32 bits of a length, reports in full.
\<close>

fun requested :: "('k, 'v) operation \<Rightarrow> 32 word option" where
  "requested (Create p c) = Some c"
| "requested (Open p c) = Some c"
| "requested x = None"

fun creates :: "path \<Rightarrow> ('k, 'v) operation \<Rightarrow> bool" where
  "creates p (Create q c) = (p = q)"
| "creates p x = False"

definition small_request :: "('k, 'v) layout \<Rightarrow> ('k, 'v) operation \<Rightarrow> bool" where
  "small_request L x =
     (case requested x of
        None \<Rightarrow> True
      | Some c \<Rightarrow> sizeof_header + unat c * sizeof_record L < 2 ^ 32)"

definition small_files :: "'r world \<Rightarrow> bool" where
  "small_files w = (\<forall>p img. files w p = Some img \<longrightarrow> len img < 2 ^ 32)"

definition kept :: "path \<Rightarrow> 'r world \<Rightarrow> 'r world \<Rightarrow> bool" where
  "kept p w w' = (files w p \<noteq> None \<longrightarrow> files w' p \<noteq> None)"

definition not_shrunk :: "path \<Rightarrow> 'r world \<Rightarrow> 'r world \<Rightarrow> bool" where
  "not_shrunk p w w' =
     (\<forall>img. files w p = Some img \<longrightarrow> (\<exists>img'. files w' p = Some img' \<and> len img \<le> len img'))"

definition backing :: "('k, 'v) storage \<Rightarrow> path \<times> bool \<times> nat option" where
  "backing s = (mpath (mfile s), mprivate (mfile s), map_option len (address (mfile s)))"

definition coherent :: "('k, 'v) session \<Rightarrow> bool" where
  "coherent st =
     (case snd st of
        None \<Rightarrow> True
      | Some s \<Rightarrow>
          (case address (mfile s) of
             None \<Rightarrow> True
           | Some v \<Rightarrow> \<exists>f. files (fst st) (mpath (mfile s)) = Some f \<and> len f = len v))"

section \<open>Valid store files\<close>

text \<open>
  A valid file of the free-stack variant, as \<^verbatim>\<open>create\<close> and the operations of a store
  leave it: the magic signature, the item size of the value type, a capacity of at least
  one, exactly header + capacity records, every marker \<^verbatim>\<open>empty\<close> or \<^verbatim>\<open>occupied\<close>, and
  no key in two occupied records.
\<close>

definition occupied_record :: "'v record_a \<Rightarrow> bool" where
  "occupied_record r = (marker r = marker_occupied)"

definition valid_store_file :: "('k, 'v) layout \<Rightarrow> 'v record_a image \<Rightarrow> bool" where
  "valid_store_file L img =
     (signature (hdr img) = (0xDA, 0x1A, 0xF1, 0x1E)
      \<and> unat (item_size (hdr img)) = sizeof_value L
      \<and> capacity (hdr img) \<noteq> 0
      \<and> len img = sizeof_header + unat (capacity (hdr img)) * sizeof_record L
      \<and> length (recs img) = unat (capacity (hdr img))
      \<and> list_all (\<lambda>r. marker r = marker_empty \<or> marker r = marker_occupied) (recs img)
      \<and> distinct (map (\<lambda>r. key_of L (data r)) (filter occupied_record (recs img))))"

text \<open>
  The file of the test suite before its scenario "expanding storage": capacity 1, holding
  \<^verbatim>\<open>item{1, 1}\<close>.
\<close>

definition one_entry_file :: "(int \<times> int) record_a image" where
  "one_entry_file =
     \<lparr>len = 32, hdr = magic_header 8 1, recs = [\<lparr>marker = 0xFEEDDA1A, data = (1, 1)\<rparr>]\<rparr>"

section \<open>Files of 4 GiB and more\<close>

text \<open>
  \<open>large_store_file\<close> is a valid file of \<^verbatim>\<open>storage<int, item>\<close> with capacity
  \<open>2 ^ 28 + 1\<close> and no entry: \<open>16 + (2 ^ 28 + 1) * 16 = 2 ^ 32 + 32\<close> bytes.
  \<open>oversized_file\<close> has the same length and records, under a header that declares
  capacity 1: it is not a store file.
\<close>

definition large_store_file :: "(int \<times> int) record_a image" where
  "large_store_file = flat_file 4294967328 (magic_header 8 268435457) 268435457"

definition oversized_file :: "(int \<times> int) record_a image" where
  "oversized_file = flat_file 4294967328 (magic_header 8 1) 268435457"

section \<open>Evaluation\<close>

lemma replicate_numeral: "replicate (numeral k) x = x # replicate (pred_numeral k) x"
  by (simp add: numeral_eq_Suc)

lemma list_update_numeral: "(x # xs)[numeral k := y] = x # xs[pred_numeral k := y]"
  by (simp add: numeral_eq_Suc)

lemmas os_defs =
  mapped_file_create_def fopen_wb_fclose_def resize_file_def resize_image_def
  whole_records_def sizeof_header_def size_t_def no_faults_def empty_world_def
  acquire_def release_def dispose_def unmap_def close_handle_def
  ERROR_FILE_INVALID_def EINVAL_def ENOENT_def ERROR_FILE_NOT_FOUND_def INVALID_FILE_SIZE_def

lemmas storage_defs =
  storage_create_def storage_open_def storage_expand_def storage_insert_def storage_close_def
  make_error_code_def word_range_def reserve_def vector_new_def push_back_def pop_back_def
  vector_back_def try_emplace_def update_record_def poke_def empty_record_def zero_record_def
  zero_header_def bad_signature_def marker_empty_def marker_occupied_def
  storage_size_def storage_capacity_def storage_items_def records_def item_layout_def

lemmas eval_simps = upt_conv_Cons replicate_numeral list_update_numeral

lemma created2_reachable:
  "fst (storage_create Win32 no_faults item_layout empty_world test_pmap 2) = Inr created2"
  by (simp add: os_defs storage_defs eval_simps created2_def test_pmap_def)

lemma one_of_two_reachable:
  "storage_insert item_layout created2 (1, 1) = (True, one_of_two)"
  by (simp add: storage_defs created2_def one_of_two_def)

section \<open>create with a capacity of zero\<close>

text \<open>
  C10: \<^verbatim>\<open>storage::create(path, 0)\<close> fails with \<^verbatim>\<open>file_size_is_too_small\<close> on every
  platform, in every environment and whatever the file system holds, and leaves the world
  (the files and the open handles) as it was: the test of the capacity comes before
  \<^verbatim>\<open>fopen\<close>.
\<close>

theorem create_zero_capacity:
  "storage_create plat env L w p 0 = (Inl (make_error_code file_size_is_too_small), w)"
  by (simp add: storage_create_def)

section \<open>insert with a key that is already indexed\<close>

text \<open>
  C3: in the free-stack variant \<^verbatim>\<open>insert\<close> pops the free stack before it looks the key up.
  The store of capacity 2 that holds key 1 has one free slot (index 0); inserting
  \<^verbatim>\<open>item{1, 5}\<close> fails and writes no record, but the store is not unchanged: the free stack
  has lost its last index.
\<close>

theorem duplicate_insert_drops_free_slot:
  "fst (storage_create Win32 no_faults item_layout empty_world test_pmap 2) = Inr created2
   \<and> storage_insert item_layout created2 (1, 1) = (True, one_of_two)
   \<and> map_of (occupied_indices one_of_two) (key_of item_layout (1, 5)) = Some 1
   \<and> elems (free_indices one_of_two) = [0]
   \<and> storage_insert item_layout one_of_two (1, 5)
       = (False, one_of_two\<lparr>free_indices := \<lparr>elems = [], reserved = 2\<rparr>\<rparr>)"
  by (simp add: created2_reachable one_of_two_reachable)
     (simp add: storage_defs one_of_two_def)

text \<open>
  C4: the invariant (one index entry per occupied slot; occupied slots plus tracked free
  slots equal to the declared capacity) holds after \<^verbatim>\<open>create\<close> and after the first
  \<^verbatim>\<open>insert\<close>, and is broken by the \<^verbatim>\<open>insert\<close> of a second value with the same key: one
  entry, one occupied slot, no free slot tracked, capacity 2.
\<close>

theorem duplicate_insert_breaks_invariant:
  "index_invariant created2
   \<and> index_invariant one_of_two
   \<and> \<not> index_invariant (snd (storage_insert item_layout one_of_two (1, 5)))
   \<and> storage_size (snd (storage_insert item_layout one_of_two (1, 5))) = 1
   \<and> length (elems (free_indices (snd (storage_insert item_layout one_of_two (1, 5))))) = 0
   \<and> declared_capacity (snd (storage_insert item_layout one_of_two (1, 5))) = 2
   \<and> storage_capacity (snd (storage_insert item_layout one_of_two (1, 5))) = 2"
  by (simp add: storage_defs one_of_two_def created2_def index_invariant_def occupied_slots_def
        declared_capacity_def)

section \<open>insert into a full store\<close>

lemmas ring_defs =
  map_insert_def detail_storage_add_def ring_link_def set_previous_def set_next_def set_data_def
  first_free_index_def first_occupied_index_def try_emplace_def make_persia_error_code_def
  map_size_def item_layout_def ring_has_free_slot_def

text \<open>
  In the free-stack variant a full store refuses the value and stays as it was (the
  result is the \<^verbatim>\<open>bool\<close> \<^verbatim>\<open>false\<close>: storage.hpp has no code for a full store).
\<close>

lemma storage_insert_full:
  "elems (free_indices s) = [] \<Longrightarrow> storage_insert L s val = (False, s)"
  by (simp add: storage_insert_def)

text \<open>
  C2: in the ring variant \<^verbatim>\<open>map::insert\<close> enters the key into the index (with slot 0)
  before it asks the storage for a slot, and leaves it there when the storage is full. The
  map of capacity 1 that holds key 1 has no free slot; inserting \<^verbatim>\<open>item{2, 2}\<close> fails with
  \<^verbatim>\<open>storage_is_full\<close>, and \<^verbatim>\<open>size()\<close> goes from 1 to 2.
\<close>

theorem full_ring_insert_grows_index:
  "map_insert item_layout ring_fresh (1, 1) = (Inr (), ring_full)
   \<and> \<not> ring_has_free_slot (dstore ring_full)
   \<and> map_of (indices ring_full) (key_of item_layout (2, 2)) = None
   \<and> map_size ring_full = 1
   \<and> fst (map_insert item_layout ring_full (2, 2)) = Inl (make_persia_error_code storage_is_full)
   \<and> indices (snd (map_insert item_layout ring_full (2, 2))) = [(1, 2), (2, 0)]
   \<and> map_size (snd (map_insert item_layout ring_full (2, 2))) = 2"
  by (simp add: ring_defs ring_fresh_def ring_full_def)

text \<open>
  The ring variant's \<^verbatim>\<open>map::insert\<close> looks the key up first: with a key that is already
  indexed it fails with \<^verbatim>\<open>duplicated_key\<close> and the map is unchanged (what C3 asks of the
  free-stack variant).
\<close>

lemma map_insert_duplicate:
  "map_of (indices m) (key_of L val) = Some i
   \<Longrightarrow> map_insert L m val = (Inl (make_persia_error_code duplicated_key), m)"
  by (simp add: map_insert_def try_emplace_def)

section \<open>Closing and reopening\<close>

lemma unix_create1:
  "storage_create Unix no_faults item_layout empty_world test_pmap 1
   = (Inr created1,
      \<lparr>files = [test_pmap \<mapsto> zero_file1],
        live = [view_handle test_pmap, file_handle test_pmap]\<rparr>)"
  by (simp add: os_defs storage_defs eval_simps created1_def test_pmap_def zero_file1_def)

text \<open>
  C1: on a POSIX system the file is mapped with \<^verbatim>\<open>MAP_PRIVATE\<close>, so nothing the store
  writes reaches the file. \<^verbatim>\<open>create("test.pmap", 1)\<close> succeeds, \<^verbatim>\<open>insert(item{1, 1})\<close>
  succeeds and the store iterates over that item; dropping the store leaves the 32 zero
  bytes that \<^verbatim>\<open>resize_file\<close> made, and \<^verbatim>\<open>open("test.pmap", 1)\<close> fails with
  \<^verbatim>\<open>invalid_file_signature\<close>.
\<close>

theorem posix_round_trip_loses_store:
  "storage_create Unix no_faults item_layout empty_world test_pmap 1
     = (Inr created1,
        \<lparr>files = [test_pmap \<mapsto> zero_file1],
          live = [view_handle test_pmap, file_handle test_pmap]\<rparr>)
   \<and> storage_insert item_layout created1 (1, 1) = (True, inserted1)
   \<and> storage_items inserted1 = [(1, 1)]
   \<and> storage_close Unix
         \<lparr>files = [test_pmap \<mapsto> zero_file1],
           live = [view_handle test_pmap, file_handle test_pmap]\<rparr> inserted1
       = \<lparr>files = [test_pmap \<mapsto> zero_file1], live = []\<rparr>
   \<and> storage_open Unix no_faults item_layout \<lparr>files = [test_pmap \<mapsto> zero_file1], live = []\<rparr>
         test_pmap 1
       = (Inl (make_error_code invalid_file_signature),
          \<lparr>files = [test_pmap \<mapsto> zero_file1], live = []\<rparr>)"
  by (simp add: unix_create1)
     (simp add: os_defs storage_defs created1_def inserted1_def zero_file1_def test_pmap_def)

text \<open>
  The Win32 view is shared: there the store of capacity 2 with key 1 comes back from the
  file with its item.
\<close>

lemma win32_round_trip_example:
  "storage_items
     (projr (fst (storage_open Win32 no_faults item_layout
        (storage_close Win32
           (snd (storage_create Win32 no_faults item_layout empty_world test_pmap 2))
           one_of_two) test_pmap 2))) = [(1, 1)]"
  by (simp add: os_defs storage_defs eval_simps one_of_two_def test_pmap_def)

section \<open>Handles on the failure paths of mapped_file::create\<close>

text \<open>
  On a POSIX system every failure of \<^verbatim>\<open>mapped_file::create\<close> returns the world as it
  was: the descriptor that was opened has been closed.
\<close>

lemma unix_create_failure_releases:
  "mapped_file_create Unix env w p = (Inl ec, w') \<Longrightarrow> w' = w"
  by (auto simp: mapped_file_create_def acquire_def release_def Let_def
      split: option.splits if_splits)

text \<open>
  C8: on Win32, when \<^verbatim>\<open>CreateFileA\<close> and \<^verbatim>\<open>CreateFileMapping\<close> succeed and
  \<^verbatim>\<open>MapViewOfFile\<close> fails, \<^verbatim>\<open>mapped_file::create\<close> of mapped_file.hpp closes the file
  handle and returns the error, and the mapping handle stays open: it is one more live
  handle than before the call.
\<close>

theorem win32_view_failure_leaks_mapping:
  assumes "env CreateFileA = None" and "env CreateFileMapping = None"
    and "env MapViewOfFile = Some code" and "files w p = Some img" and "len img \<noteq> 0"
  shows "mapped_file_create Win32 env w p
         = (Inl (system_category, code), w\<lparr>live := mapping_handle p # live w\<rparr>)"
  using assms by (simp add: mapped_file_create_def acquire_def release_def)

theorem win32_view_failure_leaks_mapping_witness:
  "mapped_file_create Win32 (no_faults(MapViewOfFile \<mapsto> 8))
     \<lparr>files = [test_pmap \<mapsto> zero_file1], live = []\<rparr> test_pmap
   = (Inl (system_category, 8),
      \<lparr>files = [test_pmap \<mapsto> zero_file1], live = [mapping_handle test_pmap]\<rparr>)"
  using win32_view_failure_leaks_mapping
          [of "no_faults(MapViewOfFile \<mapsto> 8)" 8
              "\<lparr>files = [test_pmap \<mapsto> zero_file1], live = []\<rparr>" test_pmap zero_file1]
  by (simp add: no_faults_def zero_file1_def)

section \<open>Mapping and unmapping\<close>

lemma mapped_create_view:
  "mapped_file_create plat env w p = (Inr mf, w1)
   \<Longrightarrow> \<exists>img. files w p = Some img \<and> address mf = Some img \<and> len img \<noteq> 0"
  by (cases plat)
     (auto simp: mapped_file_create_def Let_def split: option.splits if_splits)

text \<open>
  A mapping that is disposed before anything is written through it gives the world back
  as it was before the mapping was made.
\<close>

lemma mapped_create_dispose:
  "mapped_file_create plat env w p = (Inr mf, w1) \<Longrightarrow> dispose plat w1 mf = w"
  by (cases plat)
     (auto simp: mapped_file_create_def Let_def acquire_def release_def dispose_def unmap_def
        close_handle_def map_upd_triv split: option.splits if_splits)


text \<open>A file of length zero cannot be mapped, on either platform and in any environment.\<close>

lemma mapped_create_error:
  "len img = 0 \<Longrightarrow> files w p = Some img
   \<Longrightarrow> \<exists>code. mapped_file_create plat env w p = (Inl (system_category, code), w)"
  by (cases plat)
     (auto simp: mapped_file_create_def Let_def acquire_def release_def
        split: option.splits if_splits)



section \<open>open on a file of length zero\<close>

text \<open>
  C7 as the code has it: \<^verbatim>\<open>storage::open\<close> on a file of length zero fails with an error
  of the system category (the code of the failed mapping call, or of an earlier call that
  failed), never with \<^verbatim>\<open>file_size_is_too_small\<close>, and leaves the world as it was. The
  test of the size comes after the mapping, and a file of length zero cannot be mapped.
\<close>

theorem open_zero_length_os_error:
  assumes "files w p = Some img" and "len img = 0"
  shows "(\<exists>code. storage_open plat env L w p initial_capacity = (Inl (system_category, code), w))
         \<and> fst (storage_open plat env L w p initial_capacity)
             \<noteq> Inl (make_error_code file_size_is_too_small)"
proof -
  from mapped_create_error [OF assms(2) assms(1)]
  obtain code where "mapped_file_create plat env w p = (Inl (system_category, code), w)"
    by blast
  then have "storage_open plat env L w p initial_capacity = (Inl (system_category, code), w)"
    by (simp add: storage_open_def)
  then show ?thesis
    by (simp add: make_error_code_def)
qed

theorem open_zero_length_os_error_witness:
  "(\<exists>code. storage_open Unix no_faults item_layout (single dummy empty_file) dummy 1
            = (Inl (system_category, code), single dummy empty_file))
   \<and> fst (storage_open Unix no_faults item_layout (single dummy empty_file) dummy 1)
       \<noteq> Inl (make_error_code file_size_is_too_small)"
  using open_zero_length_os_error
          [of "single dummy empty_file" dummy empty_file Unix no_faults item_layout 1]
  by (simp add: empty_file_def single_def)

text \<open>
  C7 as the spec has it fails on the empty file \<^verbatim>\<open>dummy\<close> of the mapped_file tests: the
  error is \<^verbatim>\<open>EINVAL\<close> on a POSIX system and \<^verbatim>\<open>ERROR_FILE_INVALID\<close> on Win32, in the system
  category.
\<close>

theorem open_zero_length_not_too_small:
  "fst (storage_open Unix no_faults item_layout (single dummy empty_file) dummy 1)
     = Inl (system_category, EINVAL)
   \<and> fst (storage_open Win32 no_faults item_layout (single dummy empty_file) dummy 1)
     = Inl (system_category, ERROR_FILE_INVALID)
   \<and> make_error_code file_size_is_too_small \<noteq> (system_category, EINVAL)
   \<and> make_error_code file_size_is_too_small \<noteq> (system_category, ERROR_FILE_INVALID)"
  by (simp add: storage_open_def mapped_file_create_def no_faults_def empty_file_def single_def
        acquire_def release_def make_error_code_def)

section \<open>The rejections of open\<close>

lemma bad_signature_iff:
  "bad_signature h \<longleftrightarrow> signature h \<noteq> (0xDA, 0x1A, 0xF1, 0x1E)"
  by (cases "signature h") (auto simp: bad_signature_def)








section \<open>The backing file is never removed and only create shortens it\<close>

lemma files_mapped_file_create [simp]:
  "files (snd (mapped_file_create plat env w p)) = files w"
  by (cases plat)
     (auto simp: mapped_file_create_def Let_def acquire_def release_def split: option.splits)

lemma mapped_create_path:
  "mapped_file_create plat env w p = (Inr mf, w1) \<Longrightarrow> mpath mf = p"
  by (cases plat)
     (auto simp: mapped_file_create_def Let_def split: option.splits if_splits)

lemma mapped_create_size:
  "mapped_file_create plat env w p = (Inr mf, w1) \<Longrightarrow> files w p = Some img
   \<Longrightarrow> size_m mf = len img \<or> (plat = Win32 \<and> (size_m mf = len img mod 2 ^ 32 \<or> size_m mf = INVALID_FILE_SIZE))"
  by (cases plat)
     (auto simp: mapped_file_create_def Let_def split: option.splits if_splits)

lemma files_dispose:
  "files (dispose plat w mf) =
     (case address mf of
        None \<Rightarrow> files w
      | Some v \<Rightarrow> if mprivate mf then files w else (files w)(mpath mf \<mapsto> v))"
  by (cases plat)
     (auto simp: dispose_def unmap_def close_handle_def release_def split: option.splits)

lemma files_resize_file:
  "resize_file rsz zr env w p n = (r, w1)
   \<Longrightarrow> (r \<noteq> None \<and> w1 = w)
       \<or> (\<exists>img. r = None \<and> files w p = Some img \<and> files w1 = (files w)(p \<mapsto> resize_image rsz zr n img)
           \<and> live w1 = live w)"
  by (auto simp: resize_file_def split: option.splits)

lemma len_resize_image [simp]: "len (resize_image rsz zr n img) = n"
  by (simp add: resize_image_def)

lemma storage_expand_files:
  "storage_expand plat env L w p c = (r, w')
   \<Longrightarrow> files w' = files w
       \<or> (\<exists>img. files w p = Some img
            \<and> files w' = (files w)(p \<mapsto> resize_image (sizeof_record L) (zero_record L)
                  (size_t (sizeof_header + unat c * sizeof_record L)) img))"
proof -
  assume a: "storage_expand plat env L w p c = (r, w')"
  obtain e w1 where rz: "resize_file (sizeof_record L) (zero_record L) env w p
      (size_t (sizeof_header + unat c * sizeof_record L)) = (e, w1)"
    by (cases "resize_file (sizeof_record L) (zero_record L) env w p
      (size_t (sizeof_header + unat c * sizeof_record L))") auto
  obtain m w2 where mc: "mapped_file_create plat env w1 p = (m, w2)"
    by (cases "mapped_file_create plat env w1 p") auto
  have f2: "files w2 = files w1"
    using files_mapped_file_create [of plat env w1 p] mc by simp
  show ?thesis
  proof (cases e)
    case (Some code)
    with a rz files_resize_file [OF rz] show ?thesis by (auto simp: storage_expand_def)
  next
    case None
    with files_resize_file [OF rz] obtain img where img: "files w p = Some img"
      "files w1 = (files w)(p \<mapsto> resize_image (sizeof_record L) (zero_record L)
                  (size_t (sizeof_header + unat c * sizeof_record L)) img)"
      by auto
    have "files w' = files w1"
    proof (cases m)
      case (Inl ec)
      with a rz None mc f2 show ?thesis by (simp add: storage_expand_def)
    next
      case (Inr mf)
      from mapped_create_dispose [of plat env w1 p mf w2] mc Inr
      have d: "dispose plat w2 mf = w1" by simp
      from a rz None mc Inr d f2 show ?thesis
        by (auto simp: storage_expand_def Let_def split: option.splits sum.splits prod.splits)
    qed
    with img show ?thesis by simp
  qed
qed


lemma storage_open_files:
  assumes "storage_open plat env L w p c = (r, w')"
  shows "files w' = files w
       \<or> (\<exists>img mf w1. files w p = Some img
            \<and> mapped_file_create plat env w p = (Inr mf, w1)
            \<and> size_m mf = size_t (sizeof_header + unat (capacity (hdr img)) * sizeof_record L)
            \<and> capacity (hdr img) < c
            \<and> files w' = (files w)(p \<mapsto> resize_image (sizeof_record L) (zero_record L)
                  (size_t (sizeof_header + unat c * sizeof_record L)) img))"
proof -
  obtain m w1 where mc: "mapped_file_create plat env w p = (m, w1)"
    by (cases "mapped_file_create plat env w p") auto
  have f1: "files w1 = files w"
    using files_mapped_file_create [of plat env w p] mc by simp
  show ?thesis
  proof (cases m)
    case (Inl ec)
    with assms mc f1 show ?thesis by (simp add: storage_open_def)
  next
    case (Inr mf)
    from mapped_create_view mc Inr obtain img where img: "files w p = Some img"
      "address mf = Some img" by blast
    from mapped_create_dispose mc Inr have d: "dispose plat w1 mf = w" by blast
    show ?thesis
    proof (cases "size_m mf = size_t (sizeof_header + unat (capacity (hdr img)) * sizeof_record L)
        \<and> capacity (hdr img) < c \<and> r = fst (storage_expand plat env L w p c)
        \<and> w' = snd (storage_expand plat env L w p c)")
      case True
      then have "storage_expand plat env L w p c = (r, w')" by simp
      from storage_expand_files [OF this] img mc Inr True show ?thesis by auto
    next
      case False
      with assms mc Inr img d f1 have "files w' = files w"
        by (auto simp: storage_open_def split: if_splits sum.splits prod.splits)
      then show ?thesis by simp
    qed
  qed
qed


lemma size_t_small:
  "r < 2 ^ 32 \<Longrightarrow> size_t (sizeof_header + unat (c :: 32 word) * r) = sizeof_header + unat c * r"
proof -
  assume r: "r < 2 ^ 32"
  have c: "unat c < 2 ^ 32"
    using unsigned_less [of c] by simp
  have "unat c * r \<le> (2 ^ 32 - 1) * (2 ^ 32 - 1)"
    using r c by (intro mult_le_mono) simp_all
  then have "sizeof_header + unat c * r < 2 ^ 64"
    by (simp add: sizeof_header_def)
  then show ?thesis
    by (simp add: size_t_def)
qed

lemma expansion_grows:
  assumes "mapped_file_create plat env w p = (Inr mf, w1)" and "files w p = Some img"
    and "size_m mf = size_t (sizeof_header + unat (capacity (hdr img)) * sizeof_record L)"
    and "capacity (hdr img) < c"
    and "sizeof_record L < 2 ^ 32"
    and "plat = Win32 \<longrightarrow> len img < 2 ^ 32"
  shows "len img \<le> size_t (sizeof_header + unat c * sizeof_record L)"
proof -
  let ?r = "sizeof_record L"
  from assms(4) have lt: "unat (capacity (hdr img)) < unat c"
    by (simp add: word_less_nat_alt)
  then have le: "unat (capacity (hdr img)) * ?r \<le> unat c * ?r"
    by (intro mult_le_mono1) simp
  have old: "size_m mf = sizeof_header + unat (capacity (hdr img)) * ?r"
    using assms(3,5) by (simp add: size_t_small)
  have new: "size_t (sizeof_header + unat c * ?r) = sizeof_header + unat c * ?r"
    using assms(5) by (simp add: size_t_small)
  from mapped_create_size [OF assms(1,2)] consider
      "size_m mf = len img"
    | "plat = Win32" "size_m mf = len img mod 2 ^ 32"
    | "plat = Win32" "size_m mf = INVALID_FILE_SIZE"
    by blast
  then show ?thesis
  proof cases
    case 1
    with old le new show ?thesis by linarith
  next
    case 2
    with assms(6) have "size_m mf = len img" by simp
    with old le new show ?thesis by linarith
  next
    case 3
    with assms(6) have "len img \<le> size_m mf" by (simp add: INVALID_FILE_SIZE_def)
    with old le new show ?thesis by linarith
  qed
qed

lemma storage_open_not_shrunk:
  assumes "storage_open plat env L w p c = (r, w')"
    and "sizeof_record L < 2 ^ 32"
    and "plat = Win32 \<longrightarrow> small_files w"
  shows "not_shrunk q w w'"
proof -
  from storage_open_files [OF assms(1)] consider
      "files w' = files w"
    | img mf w1 where "files w p = Some img" "mapped_file_create plat env w p = (Inr mf, w1)"
        "size_m mf = size_t (sizeof_header + unat (capacity (hdr img)) * sizeof_record L)"
        "capacity (hdr img) < c"
        "files w' = (files w)(p \<mapsto> resize_image (sizeof_record L) (zero_record L)
                  (size_t (sizeof_header + unat c * sizeof_record L)) img)"
    by blast
  then show ?thesis
  proof cases
    case 1
    then show ?thesis by (simp add: not_shrunk_def)
  next
    case 2
    from assms(3) 2(1) have "plat = Win32 \<longrightarrow> len img < 2 ^ 32"
      by (auto simp: small_files_def)
    from expansion_grows [OF 2(2) 2(1) 2(3) 2(4) assms(2) this] 2(1) 2(5)
    show ?thesis by (auto simp: not_shrunk_def)
  qed
qed

lemma storage_open_small_files:
  assumes "storage_open plat env L w p c = (r, w')"
    and "small_files w" and "sizeof_header + unat c * sizeof_record L < 2 ^ 32"
  shows "small_files w'"
proof -
  have "size_t (sizeof_header + unat c * sizeof_record L) < 2 ^ 32"
    using assms(3) by (simp add: size_t_def)
  with storage_open_files [OF assms(1)] assms(2) show ?thesis
    by (auto simp: small_files_def split: if_splits)
qed


lemma storage_create_files:
  assumes "storage_create plat env L w p c = (r, w')"
  shows "files w' = files w
       \<or> (\<exists>img. files w' = (files w)(p \<mapsto> img)
            \<and> (len img = 0 \<or> len img = size_t (sizeof_header + unat c * sizeof_record L)))"
proof (cases "c = 0")
  case True
  with assms show ?thesis by (simp add: storage_create_def)
next
  case False
  obtain e w1 where fo: "fopen_wb_fclose env w p = (e, w1)"
    by (cases "fopen_wb_fclose env w p") auto
  show ?thesis
  proof (cases e)
    case (Some code)
    with assms fo False show ?thesis
      by (auto simp: storage_create_def fopen_wb_fclose_def split: option.splits)
  next
    case None
    with fo have w1: "files w1 = (files w)(p \<mapsto> \<lparr>len = 0, hdr = zero_header, recs = []\<rparr>)"
      by (auto simp: fopen_wb_fclose_def split: option.splits)
    obtain e2 w2 where rz: "resize_file (sizeof_record L) (zero_record L) env w1 p
        (size_t (sizeof_header + unat c * sizeof_record L)) = (e2, w2)"
      by (cases "resize_file (sizeof_record L) (zero_record L) env w1 p
        (size_t (sizeof_header + unat c * sizeof_record L))") auto
    show ?thesis
    proof (cases e2)
      case (Some code)
      with files_resize_file [OF rz] have "w2 = w1" by auto
      with assms fo None rz Some False w1 show ?thesis
        by (auto simp: storage_create_def)
    next
      case e2: None
      with files_resize_file [OF rz] w1 obtain img where
        w2: "files w2 = (files w)(p \<mapsto> img)"
           "len img = size_t (sizeof_header + unat c * sizeof_record L)"
        by auto
      obtain m w3 where mc: "mapped_file_create plat env w2 p = (m, w3)"
        by (cases "mapped_file_create plat env w2 p") auto
      have f3: "files w3 = files w2"
        using files_mapped_file_create [of plat env w2 p] mc by simp
      have "files w' = files w2"
      proof (cases m)
        case (Inl ec)
        with assms fo None rz e2 mc f3 False show ?thesis
          by (simp add: storage_create_def)
      next
        case (Inr mf)
        from mapped_create_view mc Inr obtain v where "address mf = Some v" by blast
        with assms fo None rz e2 mc f3 False Inr show ?thesis
          by (auto simp: storage_create_def Let_def)
      qed
      with w2 show ?thesis by auto
    qed
  qed
qed

lemma storage_create_kept:
  "storage_create plat env L w p c = (r, w') \<Longrightarrow> kept q w w'"
  using storage_create_files [of plat env L w p c r w'] by (auto simp: kept_def)

lemma storage_create_not_shrunk:
  "storage_create plat env L w p c = (r, w') \<Longrightarrow> q \<noteq> p \<Longrightarrow> not_shrunk q w w'"
  using storage_create_files [of plat env L w p c r w'] by (auto simp: not_shrunk_def)

lemma storage_create_small_files:
  assumes "storage_create plat env L w p c = (r, w')"
    and "small_files w" and "sizeof_header + unat c * sizeof_record L < 2 ^ 32"
  shows "small_files w'"
proof -
  have "size_t (sizeof_header + unat c * sizeof_record L) < 2 ^ 32"
    using assms(3) by (simp add: size_t_def)
  with storage_create_files [OF assms(1)] assms(2) show ?thesis
    by (auto simp: small_files_def split: if_splits)
qed

lemma mapped_create_coherent:
  assumes "mapped_file_create plat env w p = (Inr mf, w1)" and "address mf = Some v"
  shows "mpath mf = p \<and> files w1 p = Some v"
proof -
  from mapped_create_view [OF assms(1)] assms(2) have "files w p = Some v" by auto
  moreover have "files w1 = files w"
    using files_mapped_file_create [of plat env w p] assms(1) by simp
  ultimately show ?thesis
    using mapped_create_path [OF assms(1)] by simp
qed

lemma storage_create_coherent:
  assumes "storage_create plat env L w p c = (Inr s, w')"
  shows "coherent (w', Some s)"
proof -
  from assms have c: "c \<noteq> 0"
    by (auto simp: storage_create_def)
  from assms c obtain w2 mf v where
    mc: "mapped_file_create plat env w2 p = (Inr mf, w')" and v: "address mf = Some v"
    and s: "mpath (mfile s) = mpath mf" "map_option len (address (mfile s)) = Some (len v)"
    by (auto simp: storage_create_def Let_def split: option.splits prod.splits sum.splits)
  from mapped_create_coherent [OF mc v] s show ?thesis
    by (auto simp: coherent_def split: option.splits)
qed

lemma storage_expand_coherent:
  assumes "storage_expand plat env L w p c = (Inr s, w')"
  shows "coherent (w', Some s)"
proof -
  from assms obtain w2 mf v where
    mc: "mapped_file_create plat env w2 p = (Inr mf, w')" and v: "address mf = Some v"
    and s: "mpath (mfile s) = mpath mf" "map_option len (address (mfile s)) = Some (len v)"
    by (auto simp: storage_expand_def Let_def split: option.splits prod.splits sum.splits)
  from mapped_create_coherent [OF mc v] s show ?thesis
    by (auto simp: coherent_def split: option.splits)
qed

lemma storage_open_coherent:
  assumes "storage_open plat env L w p c = (Inr s, w')"
  shows "coherent (w', Some s)"
proof -
  from assms consider
      w0 where "storage_expand plat env L w0 p c = (Inr s, w')"
    | mf v where "mapped_file_create plat env w p = (Inr mf, w')" "address mf = Some v"
        "mfile s = mf"
    by (auto simp: storage_open_def Let_def split: option.splits prod.splits sum.splits if_splits)
  then show ?thesis
  proof cases
    case 1
    then show ?thesis by (rule storage_expand_coherent)
  next
    case 2
    from mapped_create_coherent [OF 2(1,2)] 2(2,3) show ?thesis
      by (auto simp: coherent_def)
  qed
qed


lemma coherent_backing:
  "backing s' = backing s \<Longrightarrow> coherent (w, Some s') = coherent (w, Some s)"
  by (auto simp: coherent_def backing_def split: option.splits)

lemma backing_update_record [simp]: "backing (update_record i f s) = backing s"
  by (cases "address (mfile s)") (simp_all add: backing_def update_record_def poke_def)

lemma backing_free_indices [simp]: "backing (s\<lparr>free_indices := x\<rparr>) = backing s"
  by (simp add: backing_def)

lemma backing_occupied_indices [simp]: "backing (s\<lparr>occupied_indices := x\<rparr>) = backing s"
  by (simp add: backing_def)

lemma backing_insert [simp]: "backing (snd (storage_insert L s val)) = backing s"
  by (simp add: storage_insert_def Let_def)

lemma backing_insert_or_assign [simp]:
  "backing (snd (storage_insert_or_assign L s val)) = backing s"
  by (simp add: storage_insert_or_assign_def Let_def split: option.splits)

lemma backing_erase [simp]: "backing (snd (storage_erase s key)) = backing s"
  by (simp add: storage_erase_def split: option.splits)

lemma backing_clear_fold:
  "backing (fold (\<lambda>(key, index) t.
              (update_record index f t)\<lparr>free_indices := push_back index (free_indices t)\<rparr>)
        xs s) = backing s"
  by (induction xs arbitrary: s) (auto simp: case_prod_beta)

lemma backing_clear [simp]: "backing (storage_clear s) = backing s"
  by (simp add: storage_clear_def backing_clear_fold)

lemma storage_close_not_shrunk:
  "coherent (w, Some s) \<Longrightarrow> not_shrunk q w (storage_close plat w s)"
  by (auto simp: storage_close_def files_dispose coherent_def not_shrunk_def
      split: option.splits if_splits)

lemma storage_close_small_files:
  "coherent (w, Some s) \<Longrightarrow> small_files w \<Longrightarrow> small_files (storage_close plat w s)"
  by (fastforce simp: storage_close_def files_dispose coherent_def small_files_def
      split: option.splits if_splits)

lemma not_shrunk_refl [simp]: "not_shrunk q w w"
  by (simp add: not_shrunk_def)

lemma not_shrunk_trans: "not_shrunk q w w1 \<Longrightarrow> not_shrunk q w1 w2 \<Longrightarrow> not_shrunk q w w2"
  by (fastforce simp: not_shrunk_def)

lemma not_shrunk_kept: "not_shrunk q w w' \<Longrightarrow> kept q w w'"
  by (auto simp: not_shrunk_def kept_def)

lemma kept_trans: "kept q w w1 \<Longrightarrow> kept q w1 w2 \<Longrightarrow> kept q w w2"
  by (auto simp: kept_def)

lemma coherent_opened:
  "(\<And>s. r = Inr s \<Longrightarrow> coherent (w, Some s)) \<Longrightarrow> coherent (opened (r, w))"
  by (cases r) (simp_all add: coherent_def)

lemma fst_opened [simp]: "fst (opened (r, w)) = w"
  by (cases r) simp_all

lemma step_sound:
  assumes "coherent st" and "sizeof_record L < 2 ^ 32"
    and "plat = Win32 \<longrightarrow> small_files (fst st) \<and> small_request L x"
  shows "coherent (step plat env L x st)
         \<and> (plat = Win32 \<longrightarrow> small_files (fst (step plat env L x st)))
         \<and> kept q (fst st) (fst (step plat env L x st))
         \<and> (\<not> creates q x \<longrightarrow> not_shrunk q (fst st) (fst (step plat env L x st)))"
proof -
  obtain w so where st: "st = (w, so)" by (cases st)
  then have w: "fst st = w" by simp
  from assms(3) w have sf: "plat = Win32 \<longrightarrow> small_files w" by simp
  have same: ?thesis if "step plat env L x st = st"
    unfolding that using assms(1,3) by (simp add: kept_def)
  show ?thesis
  proof (cases so)
    case None
    show ?thesis
    proof (cases x)
      case (Create p c)
      obtain r w' where r: "storage_create plat env L w p c = (r, w')"
        by (cases "storage_create plat env L w p c") auto
      have e: "step plat env L x st = opened (r, w')"
        using st None Create r by simp
      have c1: "coherent (opened (r, w'))"
        using storage_create_coherent r by (intro coherent_opened) blast
      have c2: "plat = Win32 \<longrightarrow> small_files w'"
        using storage_create_small_files [OF r] assms(3) st Create
        by (simp add: small_request_def)
      have c3: "kept q w w'"
        using storage_create_kept [OF r] .
      have c4: "\<not> creates q x \<longrightarrow> not_shrunk q w w'"
        using storage_create_not_shrunk [OF r] Create by simp
      show ?thesis
        unfolding e w fst_opened using c1 c2 c3 c4 by blast
    next
      case (Open p c)
      obtain r w' where r: "storage_open plat env L w p c = (r, w')"
        by (cases "storage_open plat env L w p c") auto
      have e: "step plat env L x st = opened (r, w')"
        using st None Open r by simp
      have c1: "coherent (opened (r, w'))"
        using storage_open_coherent r by (intro coherent_opened) blast
      have c2: "plat = Win32 \<longrightarrow> small_files w'"
        using storage_open_small_files [OF r] assms(3) st Open
        by (simp add: small_request_def)
      have c4: "not_shrunk q w w'"
        using storage_open_not_shrunk [OF r assms(2)] assms(3) st by simp
      show ?thesis
        unfolding e w fst_opened using c1 c2 c4 not_shrunk_kept [OF c4] by blast
    next
      case (Insert val)
      with st None show ?thesis by (intro same) simp
    next
      case (InsertOrAssign val)
      with st None show ?thesis by (intro same) simp
    next
      case (Erase key)
      with st None show ?thesis by (intro same) simp
    next
      case Clear
      with st None show ?thesis by (intro same) simp
    next
      case Drop
      with st None show ?thesis by (intro same) simp
    qed
  next
    case (Some s)
    from assms(1) st Some have coh: "coherent (w, Some s)" by simp
    show ?thesis
    proof (cases x)
      case Drop
      have e: "step plat env L x st = (storage_close plat w s, None)"
        using st Some Drop by simp
      have c1: "coherent (storage_close plat w s, None)"
        by (simp add: coherent_def)
      have c2: "plat = Win32 \<longrightarrow> small_files (storage_close plat w s)"
      proof
        assume "plat = Win32"
        with assms(3) st have "small_files w" by simp
        then show "small_files (storage_close plat w s)"
          by (rule storage_close_small_files [OF coh])
      qed
      have c4: "not_shrunk q w (storage_close plat w s)"
        using storage_close_not_shrunk [OF coh] .
      show ?thesis
        unfolding e w fst_conv using c1 c2 c4 not_shrunk_kept [OF c4] by blast
    next
      case (Insert val)
      have c: "coherent (w, Some (snd (storage_insert L s val)))"
        using coh by (simp add: coherent_backing [OF backing_insert])
      have e: "step plat env L x st = (w, Some (snd (storage_insert L s val)))"
        using st Some Insert by simp
      show ?thesis
        unfolding e w fst_conv using c sf by (simp add: kept_def)
    next
      case (InsertOrAssign val)
      have c: "coherent (w, Some (snd (storage_insert_or_assign L s val)))"
        using coh by (simp add: coherent_backing [OF backing_insert_or_assign])
      have e: "step plat env L x st = (w, Some (snd (storage_insert_or_assign L s val)))"
        using st Some InsertOrAssign by simp
      show ?thesis
        unfolding e w fst_conv using c sf by (simp add: kept_def)
    next
      case (Erase key)
      have c: "coherent (w, Some (snd (storage_erase s key)))"
        using coh by (simp add: coherent_backing [OF backing_erase])
      have e: "step plat env L x st = (w, Some (snd (storage_erase s key)))"
        using st Some Erase by simp
      show ?thesis
        unfolding e w fst_conv using c sf by (simp add: kept_def)
    next
      case Clear
      have c: "coherent (w, Some (storage_clear s))"
        using coh by (simp add: coherent_backing [OF backing_clear])
      have e: "step plat env L x st = (w, Some (storage_clear s))"
        using st Some Clear by simp
      show ?thesis
        unfolding e w fst_conv using c sf by (simp add: kept_def)
    next
      case (Create p c)
      with st Some show ?thesis by (intro same) simp
    next
      case (Open p c)
      with st Some show ?thesis by (intro same) simp
    qed
  qed
qed


lemma run_sound:
  assumes "coherent st" and "sizeof_record L < 2 ^ 32"
    and "plat = Win32 \<longrightarrow> small_files (fst st) \<and> list_all (small_request L) xs"
  shows "coherent (run plat env L xs st)
         \<and> (plat = Win32 \<longrightarrow> small_files (fst (run plat env L xs st)))
         \<and> kept q (fst st) (fst (run plat env L xs st))
         \<and> (\<not> list_ex (creates q) xs \<longrightarrow> not_shrunk q (fst st) (fst (run plat env L xs st)))"
  using assms
proof (induction xs arbitrary: st)
  case Nil
  then show ?case by (simp add: run_def kept_def)
next
  case (Cons x xs)
  let ?st1 = "step plat env L x st"
  from Cons.prems have p: "plat = Win32 \<longrightarrow> small_files (fst st) \<and> small_request L x"
    by simp
  from step_sound [OF Cons.prems(1,2) p, of env q]
  have s1: "coherent ?st1" and s2: "plat = Win32 \<longrightarrow> small_files (fst ?st1)"
    and s3: "kept q (fst st) (fst ?st1)"
    and s4: "\<not> creates q x \<longrightarrow> not_shrunk q (fst st) (fst ?st1)"
    by blast+
  from Cons.prems(3) s2 have p1: "plat = Win32 \<longrightarrow>
      small_files (fst ?st1) \<and> list_all (small_request L) xs"
    by simp
  from Cons.IH [OF s1 Cons.prems(2) p1]
  have i1: "coherent (run plat env L xs ?st1)"
    and i2: "plat = Win32 \<longrightarrow> small_files (fst (run plat env L xs ?st1))"
    and i3: "kept q (fst ?st1) (fst (run plat env L xs ?st1))"
    and i4: "\<not> list_ex (creates q) xs
              \<longrightarrow> not_shrunk q (fst ?st1) (fst (run plat env L xs ?st1))"
    by blast+
  have unfold: "run plat env L (x # xs) st = run plat env L xs ?st1"
    by (simp add: run_def)
  have k: "kept q (fst st) (fst (run plat env L xs ?st1))"
    using s3 i3 by (rule kept_trans)
  have n: "\<not> list_ex (creates q) (x # xs)
             \<longrightarrow> not_shrunk q (fst st) (fst (run plat env L xs ?st1))"
  proof
    assume "\<not> list_ex (creates q) (x # xs)"
    then have "\<not> creates q x" and "\<not> list_ex (creates q) xs"
      by simp_all
    with s4 i4 show "not_shrunk q (fst st) (fst (run plat env L xs ?st1))"
      by (blast intro: not_shrunk_trans)
  qed
  show ?case
    unfolding unfold using i1 i2 k n by blast
qed

lemma map_plus_upt: "map (\<lambda>k. n + k) [0..<m] = [n..<n + m]"
  by (induction m) simp_all

lemma map_unat_word_range:
  assumes "a \<le> (b :: 32 word)"
  shows "map unat (word_range a b) = [unat a..<unat b]"
proof -
  from assms have d: "unat (b - a) = unat b - unat a"
    by (simp add: unat_sub)
  have le: "unat a \<le> unat b"
    using assms by (simp add: word_le_nat_alt)
  have step: "unat (a + of_nat k) = unat a + k" if "k < unat b - unat a" for k
  proof -
    have b: "unat b < 2 ^ 32" using unsigned_less [of b] by simp
    with that have k: "k < 2 ^ 32" by simp
    then have "unat (of_nat k :: 32 word) = k" by (simp add: unat_of_nat)
    moreover from that b have "unat a + k < 2 ^ LENGTH(32)" by simp
    ultimately show ?thesis
      using unat_add_lem [of a "of_nat k"] by simp
  qed
  have "map (\<lambda>k. unat (a + of_nat k)) [0..<unat b - unat a]
      = map (\<lambda>k. unat a + k) [0..<unat b - unat a]"
    by (rule map_cong) (simp_all add: step)
  then have "map unat (word_range a b) = map (\<lambda>k. unat a + k) [0..<unat b - unat a]"
    by (simp add: word_range_def d comp_def)
  also have "\<dots> = [unat a..<unat b]"
    using le by (simp add: map_plus_upt)
  finally show ?thesis .
qed

lemma whole_records_mono: "a \<le> b \<Longrightarrow> whole_records rsz a \<le> whole_records rsz b"
  by (simp add: whole_records_def div_le_mono)

lemma whole_records_bound: "l \<le> sizeof_header + n * rsz \<Longrightarrow> whole_records rsz l \<le> n"
proof -
  assume "l \<le> sizeof_header + n * rsz"
  then have "whole_records rsz l \<le> whole_records rsz (sizeof_header + n * rsz)"
    by (rule whole_records_mono)
  also have "\<dots> \<le> n"
    by (cases "rsz = 0") (simp_all add: whole_records_def)
  finally show ?thesis .
qed

lemma resize_keeps:
  assumes "wf_image rsz f" and "len f \<le> n"
  shows "len f \<le> len (resize_image rsz zr n f)
         \<and> (sizeof_header \<le> len f \<longrightarrow> hdr (resize_image rsz zr n f) = hdr f)
         \<and> recs (resize_image rsz zr n f)
             = recs f @ replicate (whole_records rsz n - length (recs f)) zr"
proof -
  from assms have "length (recs f) \<le> whole_records rsz n"
    by (simp add: wf_image_def whole_records_mono)
  then have "take (whole_records rsz n) (recs f @ replicate (whole_records rsz n) zr)
      = recs f @ replicate (whole_records rsz n - length (recs f)) zr"
    by simp
  with assms(2) show ?thesis
    by (simp add: resize_image_def)
qed

lemma take_fold_update:
  "\<forall>j \<in> set js. n \<le> g j \<Longrightarrow> take n (fold (\<lambda>j ys. ys[g j := e]) js xs) = take n xs"
  by (induction js arbitrary: xs) simp_all

lemma word_range_ge:
  assumes "a \<le> (b :: 32 word)" and "i \<in> set (word_range a b)"
  shows "unat a \<le> unat i"
proof -
  from assms(2) have "unat i \<in> set (map unat (word_range a b))"
    by simp
  then show ?thesis
    unfolding map_unat_word_range [OF assms(1)] by simp
qed

lemma mapped_create_len:
  assumes "mapped_file_create plat env w p = (Inr mf, w1)" and "files w p = Some f"
    and "plat = Win32 \<longrightarrow> len f < 2 ^ 32"
  shows "address mf = Some f \<and> mpath mf = p \<and> len f \<le> size_m mf"
proof -
  from mapped_create_view [OF assms(1)] assms(2) have "address mf = Some f"
    by auto
  moreover from mapped_create_size [OF assms(1,2)] assms(3) have "len f \<le> size_m mf"
    by (auto simp: INVALID_FILE_SIZE_def)
  ultimately show ?thesis
    using mapped_create_path [OF assms(1)] by simp
qed

lemma storage_expand_view:
  assumes e: "storage_expand plat env L w p c = (Inr s, w')"
    and f: "files w p = Some f"
    and wf: "wf_image (sizeof_record L) f"
    and le: "len f \<le> sizeof_header + unat (capacity (hdr f)) * sizeof_record L"
    and grow: "capacity (hdr f) \<le> c"
    and small: "sizeof_record L < 2 ^ 32"
  shows "\<exists>v. address (mfile s) = Some v \<and> mpath (mfile s) = p \<and> len f \<le> len v
           \<and> take (length (recs f)) (recs v) = recs f
           \<and> (sizeof_header \<le> len f
                \<longrightarrow> hdr v = hdr f \<or> hdr v = (hdr f)\<lparr>capacity := c\<rparr>)"
proof -
  define n where "n = size_t (sizeof_header + unat c * sizeof_record L)"
  define img2 where "img2 = resize_image (sizeof_record L) (zero_record L) n f"
  define rs where "rs = fold (\<lambda>i xs. xs[unat i := empty_record L])
      (word_range (capacity (hdr img2)) c) (recs img2)"
  have n: "n = sizeof_header + unat c * sizeof_record L"
    using small by (simp add: n_def size_t_small)
  from grow have "unat (capacity (hdr f)) * sizeof_record L \<le> unat c * sizeof_record L"
    by (intro mult_le_mono1) (simp add: word_le_nat_alt)
  with le have ln: "len f \<le> n"
    unfolding n by linarith
  note keeps = resize_keeps [OF wf ln, of "zero_record L", folded img2_def]
  obtain e1 w1 where rz: "resize_file (sizeof_record L) (zero_record L) env w p n = (e1, w1)"
    by (cases "resize_file (sizeof_record L) (zero_record L) env w p n") auto
  have none: "e1 = None"
    using e rz by (cases e1) (simp_all add: storage_expand_def n_def)
  from files_resize_file [OF rz] f none have f1: "files w1 p = Some img2"
    by (auto simp: img2_def)
  obtain m w2 where mc: "mapped_file_create plat env w1 p = (m, w2)"
    by (cases "mapped_file_create plat env w1 p") auto
  obtain mf where m: "m = Inr mf"
    using e rz none mc by (cases m) (simp_all add: storage_expand_def n_def)
  from mapped_create_view [of plat env w1 p mf w2] mc m f1 have view: "address mf = Some img2"
    by auto
  from mapped_create_path [of plat env w1 p mf w2] mc m have path: "mpath mf = p"
    by simp
  from e rz none mc m view
  have s: "mfile s = mf\<lparr>address := Some (img2\<lparr>hdr := (hdr img2)\<lparr>capacity := c\<rparr>, recs := rs\<rparr>)\<rparr>"
    by (auto simp: storage_expand_def Let_def n_def rs_def split: sum.splits prod.splits)
  have "take (length (recs f)) rs = recs f"
  proof (cases "sizeof_header \<le> len f")
    case False
    with wf have "recs f = []"
      by (simp add: wf_image_def whole_records_def)
    then show ?thesis by simp
  next
    case True
    with keeps have h: "hdr img2 = hdr f" by simp
    from wf le have "length (recs f) \<le> unat (capacity (hdr f))"
      by (simp add: wf_image_def whole_records_bound)
    with word_range_ge [OF grow]
    have "\<forall>i \<in> set (word_range (capacity (hdr f)) c). length (recs f) \<le> unat i"
      by (meson le_trans)
    then have "take (length (recs f)) rs = take (length (recs f)) (recs img2)"
      unfolding rs_def h by (rule take_fold_update)
    with keeps show ?thesis by simp
  qed
  moreover from keeps have "len f \<le> len img2"
    and "sizeof_header \<le> len f \<longrightarrow> hdr img2 = hdr f"
    by simp_all
  ultimately show ?thesis
    using s path by simp
qed

lemma storage_open_view:
  assumes o: "storage_open plat env L w p c = (Inr s, w')"
    and f: "files w p = Some f"
    and wf: "wf_image (sizeof_record L) f"
    and small: "sizeof_record L < 2 ^ 32"
    and win: "plat = Win32 \<longrightarrow> len f < 2 ^ 32"
  shows "\<exists>v. address (mfile s) = Some v \<and> mpath (mfile s) = p \<and> len f \<le> len v
           \<and> take (length (recs f)) (recs v) = recs f
           \<and> (sizeof_header \<le> len f
                \<longrightarrow> hdr v = hdr f \<or> hdr v = (hdr f)\<lparr>capacity := c\<rparr>)"
proof -
  obtain m w1 where mc: "mapped_file_create plat env w p = (m, w1)"
    by (cases "mapped_file_create plat env w p") auto
  obtain mf where m: "m = Inr mf"
    using o mc by (cases m) (simp_all add: storage_open_def)
  note mc' = mc [unfolded m]
  from mapped_create_len [OF mc' f win]
  have view: "address mf = Some f" and path: "mpath mf = p" and size: "len f \<le> size_m mf"
    by simp_all
  from mapped_create_dispose [OF mc'] have d: "dispose plat w1 mf = w" .
  show ?thesis
  proof (cases "size_m mf = size_t (sizeof_header + unat (capacity (hdr f)) * sizeof_record L)
        \<and> capacity (hdr f) < c \<and> storage_expand plat env L w p c = (Inr s, w')")
    case True
    then have "len f \<le> sizeof_header + unat (capacity (hdr f)) * sizeof_record L"
      using size small by (simp add: size_t_small)
    moreover from True have "capacity (hdr f) \<le> c" by (simp add: less_imp_le)
    ultimately show ?thesis
      using storage_expand_view [of plat env L w p c s w' f] True f wf small by blast
  next
    case False
    with o mc' view d have "mfile s = mf"
      by (auto simp: storage_open_def split: if_splits sum.splits prod.splits)
    with view path show ?thesis by simp
  qed
qed


lemma storage_expand_path:
  "storage_expand plat env L w p c = (Inr s, w') \<Longrightarrow> mpath (mfile s) = p"
  by (auto simp: storage_expand_def Let_def split: option.splits prod.splits sum.splits
        dest: mapped_create_path)

lemma storage_open_path:
  assumes "storage_open plat env L w p c = (Inr s, w')"
  shows "mpath (mfile s) = p"
proof -
  from assms consider
      w0 where "storage_expand plat env L w0 p c = (Inr s, w')"
    | mf where "mapped_file_create plat env w p = (Inr mf, w')" "mfile s = mf"
    by (auto simp: storage_open_def Let_def split: option.splits prod.splits sum.splits if_splits)
  then show ?thesis
  proof cases
    case 1
    then show ?thesis by (rule storage_expand_path)
  next
    case 2
    with mapped_create_path show ?thesis by metis
  qed
qed

lemma storage_open_appends:
  assumes "storage_open plat env L w p c = (r, w')"
    and "sizeof_record L < 2 ^ 32"
    and "plat = Win32 \<longrightarrow> small_files w"
    and "files w q = Some f" and "wf_image (sizeof_record L) f"
  shows "\<exists>f'. files w' q = Some f' \<and> len f \<le> len f'
           \<and> (sizeof_header \<le> len f \<longrightarrow> hdr f' = hdr f)
           \<and> recs f' = recs f @ replicate (length (recs f') - length (recs f)) (zero_record L)"
proof -
  from storage_open_files [OF assms(1)] consider
      "files w' = files w"
    | img mf w1 where "files w p = Some img" "mapped_file_create plat env w p = (Inr mf, w1)"
        "size_m mf = size_t (sizeof_header + unat (capacity (hdr img)) * sizeof_record L)"
        "capacity (hdr img) < c"
        "files w' = (files w)(p \<mapsto> resize_image (sizeof_record L) (zero_record L)
                  (size_t (sizeof_header + unat c * sizeof_record L)) img)"
    by blast
  then show ?thesis
  proof cases
    case 1
    with assms(4) show ?thesis by simp
  next
    case 2
    show ?thesis
    proof (cases "q = p")
      case False
      with 2(5) assms(4) show ?thesis by simp
    next
      case True
      with 2(1) assms(4) have f: "img = f" by simp
      from assms(3) 2(1) have "plat = Win32 \<longrightarrow> len img < 2 ^ 32"
        by (auto simp: small_files_def)
      from expansion_grows [OF 2(2) 2(1) 2(3) 2(4) assms(2) this]
      have "len f \<le> size_t (sizeof_header + unat c * sizeof_record L)"
        by (simp add: f)
      from resize_keeps [OF assms(5) this, of "zero_record L"] 2(5) True f
      show ?thesis by simp
    qed
  qed
qed

lemma open_drop_keeps:
  assumes small: "sizeof_record L < 2 ^ 32"
    and win: "plat = Win32 \<longrightarrow> small_files w"
    and f: "files w q = Some f" and wf: "wf_image (sizeof_record L) f"
  shows "\<exists>f'. files (fst (run plat env L [Open p c, Drop] (w, None))) q = Some f'
           \<and> len f \<le> len f'
           \<and> take (length (recs f)) (recs f') = recs f
           \<and> (sizeof_header \<le> len f
                \<longrightarrow> hdr f' = hdr f \<or> hdr f' = (hdr f)\<lparr>capacity := c\<rparr>)"
proof -
  obtain r w1 where o: "storage_open plat env L w p c = (r, w1)"
    by (cases "storage_open plat env L w p c") auto
  from storage_open_appends [OF o small win f wf] obtain f1 where f1: "files w1 q = Some f1"
    "len f \<le> len f1" "sizeof_header \<le> len f \<longrightarrow> hdr f1 = hdr f"
    "recs f1 = recs f @ replicate (length (recs f1) - length (recs f)) (zero_record L)"
    by blast
  from f1(4) have "take (length (recs f)) (recs f1)
      = take (length (recs f))
          (recs f @ replicate (length (recs f1) - length (recs f)) (zero_record L))"
    by simp
  then have t1: "take (length (recs f)) (recs f1) = recs f"
    by simp
  show ?thesis
  proof (cases r)
    case (Inl ec)
    with o f1 t1 show ?thesis by (simp add: run_def)
  next
    case (Inr s)
    note o' = o [unfolded Inr]
    have e: "fst (run plat env L [Open p c, Drop] (w, None)) = dispose plat w1 (mfile s)"
      using o' by (simp add: run_def storage_close_def)
    from storage_open_path [OF o'] have path: "mpath (mfile s) = p" .
    show ?thesis
    proof (cases "q = p \<and> \<not> mprivate (mfile s)")
      case False
      then have "files (dispose plat w1 (mfile s)) q = files w1 q"
        using path by (auto simp: files_dispose split: option.splits)
      with f1 t1 show ?thesis unfolding e by simp
    next
      case True
      with f have fp: "files w p = Some f" by simp
      from win fp have "plat = Win32 \<longrightarrow> len f < 2 ^ 32"
        by (auto simp: small_files_def)
      from storage_open_view [OF o' fp wf small this] obtain v where
        v: "address (mfile s) = Some v" "len f \<le> len v"
          "take (length (recs f)) (recs v) = recs f"
          "sizeof_header \<le> len f \<longrightarrow> hdr v = hdr f \<or> hdr v = (hdr f)\<lparr>capacity := c\<rparr>"
        by blast
      from True v(1) path have "files (dispose plat w1 (mfile s)) q = Some v"
        by (simp add: files_dispose)
      with v show ?thesis unfolding e by simp
    qed
  qed
qed

text \<open>
  C9 as the code has it, in three parts.

  In every session (any sequence of create, open, insert, insert_or_assign, erase, clear
  and dropping the store, on either platform and in any environment) a file that exists is
  never removed, and its length never decreases unless the session creates a store at its
  path.

  \<^verbatim>\<open>open\<close>, with the expansion inside it, only appends: when it returns, with a store or
  with an error, every file is at least as long as before and holds its old header (if it
  was long enough to hold one) and its old records, followed by zero records only.

  When the store that \<^verbatim>\<open>open\<close> returned is dropped, which is when the model carries the
  writes made through a shared mapping to the file, every file is still at least as long,
  starts with its old records, and has its old header, but for the capacity field that the
  expansion sets to the requested capacity.

  The hypotheses are the limits of the code's arithmetic: a target whose \<^verbatim>\<open>std::size_t\<close>
  has 64 bits, a record size below \<open>2 ^ 32\<close>, and on Win32, where
  \<^verbatim>\<open>GetFileSize(file, NULL)\<close> reports the low 32 bits of a length, files and requested
  sizes below 4 GiB. The second and third part are about files that hold as many records as
  their length has room for.
\<close>

theorem backing_file_persists:
  assumes "sizeof_record L < 2 ^ 32"
    and "plat = Win32 \<longrightarrow> small_files w \<and> list_all (small_request L) xs"
    and "files w p = Some img"
  shows "(\<exists>img'. files (fst (run plat env L xs (w, None))) p = Some img'
            \<and> (\<not> list_ex (creates p) xs \<longrightarrow> len img \<le> len img'))
         \<and> (\<forall>q c. wf_image (sizeof_record L) img \<longrightarrow>
               (\<exists>f'. files (snd (storage_open plat env L w q c)) p = Some f'
                  \<and> len img \<le> len f'
                  \<and> (sizeof_header \<le> len img \<longrightarrow> hdr f' = hdr img)
                  \<and> recs f' = recs img
                       @ replicate (length (recs f') - length (recs img)) (zero_record L))
               \<and> (\<exists>f'. files (fst (run plat env L [Open q c, Drop] (w, None))) p = Some f'
                  \<and> len img \<le> len f'
                  \<and> take (length (recs img)) (recs f') = recs img
                  \<and> (sizeof_header \<le> len img
                       \<longrightarrow> hdr f' = hdr img \<or> hdr f' = (hdr img)\<lparr>capacity := c\<rparr>)))"
proof (intro conjI allI impI)
  have c: "coherent (w, None :: ('a, 'b) storage option)"
    by (simp add: coherent_def)
  from run_sound [OF c assms(1), of plat xs env p] assms(2)
  have k: "kept p w (fst (run plat env L xs (w, None)))"
    and n: "\<not> list_ex (creates p) xs \<longrightarrow> not_shrunk p w (fst (run plat env L xs (w, None)))"
    by simp_all
  from k assms(3) obtain img' where i: "files (fst (run plat env L xs (w, None))) p = Some img'"
    by (auto simp: kept_def)
  with n assms(3) have "\<not> list_ex (creates p) xs \<longrightarrow> len img \<le> len img'"
    by (auto simp: not_shrunk_def)
  with i show "\<exists>img'. files (fst (run plat env L xs (w, None))) p = Some img'
            \<and> (\<not> list_ex (creates p) xs \<longrightarrow> len img \<le> len img')"
    by blast
next
  fix q c
  assume wf: "wf_image (sizeof_record L) img"
  from assms(2) have win: "plat = Win32 \<longrightarrow> small_files w"
    by simp
  obtain r w1 where o: "storage_open plat env L w q c = (r, w1)"
    by (cases "storage_open plat env L w q c") auto
  from storage_open_appends [OF o assms(1) win assms(3) wf]
  show "\<exists>f'. files (snd (storage_open plat env L w q c)) p = Some f'
                  \<and> len img \<le> len f'
                  \<and> (sizeof_header \<le> len img \<longrightarrow> hdr f' = hdr img)
                  \<and> recs f' = recs img
                       @ replicate (length (recs f') - length (recs img)) (zero_record L)"
    by (simp add: o)
next
  fix q c
  assume wf: "wf_image (sizeof_record L) img"
  from assms(2) have win: "plat = Win32 \<longrightarrow> small_files w"
    by simp
  from open_drop_keeps [OF assms(1) win assms(3) wf]
  show "\<exists>f'. files (fst (run plat env L [Open q c, Drop] (w, None))) p = Some f'
                  \<and> len img \<le> len f'
                  \<and> take (length (recs img)) (recs f') = recs img
                  \<and> (sizeof_header \<le> len img
                       \<longrightarrow> hdr f' = hdr img \<or> hdr f' = (hdr img)\<lparr>capacity := c\<rparr>)" .
qed

theorem backing_file_persists_witness:
  "(\<exists>img'. files (fst (run Win32 no_faults item_layout [Open test_pmap 2, Insert (2, 2), Drop]
                        (single test_pmap one_entry_file, None))) test_pmap
            = Some img'
          \<and> 32 \<le> len img')
   \<and> (\<exists>f'. files (snd (storage_open Win32 no_faults item_layout (single test_pmap one_entry_file)
                          test_pmap 2)) test_pmap = Some f'
          \<and> 32 \<le> len f'
          \<and> hdr f' = magic_header 8 1
          \<and> recs f' = \<lparr>marker = 0xFEEDDA1A, data = (1, 1)\<rparr>
                # replicate (length (recs f') - 1) \<lparr>marker = 0, data = (0, 0)\<rparr>)
   \<and> (\<exists>f'. files (fst (run Win32 no_faults item_layout [Open test_pmap 2, Drop]
                        (single test_pmap one_entry_file, None))) test_pmap = Some f'
          \<and> 32 \<le> len f'
          \<and> take 1 (recs f') = [\<lparr>marker = 0xFEEDDA1A, data = (1, 1)\<rparr>]
          \<and> (hdr f' = magic_header 8 1 \<or> hdr f' = (magic_header 8 1)\<lparr>capacity := 2\<rparr>))"
proof -
  note t = backing_file_persists
          [of item_layout Win32 "single test_pmap one_entry_file"
              "[Open test_pmap 2, Insert (2, 2), Drop]" test_pmap one_entry_file no_faults]
  have h1: "sizeof_record item_layout < 2 ^ 32"
    by (simp add: item_layout_def)
  have h2: "Win32 = Win32 \<longrightarrow> small_files (single test_pmap one_entry_file)
              \<and> list_all (small_request item_layout) [Open test_pmap 2, Insert (2, 2), Drop]"
    by (simp add: item_layout_def small_files_def single_def one_entry_file_def small_request_def
          sizeof_header_def)
  have h3: "files (single test_pmap one_entry_file) test_pmap = Some one_entry_file"
    by (simp add: single_def)
  have wf: "wf_image (sizeof_record item_layout) one_entry_file"
    by (simp add: wf_image_def whole_records_def sizeof_header_def item_layout_def
          one_entry_file_def)
  from t [OF h1 h2 h3] have
    a: "\<exists>img'. files (fst (run Win32 no_faults item_layout [Open test_pmap 2, Insert (2, 2), Drop]
                        (single test_pmap one_entry_file, None))) test_pmap = Some img'
          \<and> 32 \<le> len img'"
    by (simp add: one_entry_file_def)
  from t [OF h1 h2 h3, THEN conjunct2, rule_format, OF wf, of test_pmap 2]
  have b: "(\<exists>f'. files (snd (storage_open Win32 no_faults item_layout
                    (single test_pmap one_entry_file) test_pmap 2)) test_pmap = Some f'
          \<and> 32 \<le> len f'
          \<and> hdr f' = magic_header 8 1
          \<and> recs f' = \<lparr>marker = 0xFEEDDA1A, data = (1, 1)\<rparr>
                # replicate (length (recs f') - 1) \<lparr>marker = 0, data = (0, 0)\<rparr>)
      \<and> (\<exists>f'. files (fst (run Win32 no_faults item_layout [Open test_pmap 2, Drop]
                        (single test_pmap one_entry_file, None))) test_pmap = Some f'
          \<and> 32 \<le> len f'
          \<and> take 1 (recs f') = [\<lparr>marker = 0xFEEDDA1A, data = (1, 1)\<rparr>]
          \<and> (hdr f' = magic_header 8 1 \<or> hdr f' = (magic_header 8 1)\<lparr>capacity := 2\<rparr>))"
    by (simp add: one_entry_file_def sizeof_header_def zero_record_def item_layout_def)
  from a b show ?thesis by blast
qed

text \<open>
  The session of the witness expands the file from 32 to 48 bytes and leaves the entry
  \<^verbatim>\<open>item{1, 1}\<close> in the first record.
\<close>

lemma win32_expansion_example:
  "files (fst (run Win32 no_faults item_layout [Open test_pmap 2, Insert (2, 2), Drop]
                 (single test_pmap one_entry_file, None))) test_pmap
   = Some \<lparr>len = 48, hdr = magic_header 8 2,
            recs = [\<lparr>marker = 0xFEEDDA1A, data = (1, 1)\<rparr>,
                    \<lparr>marker = 0xFEEDDA1A, data = (2, 2)\<rparr>]\<rparr>"
  by (simp add: run_def os_defs storage_defs eval_simps single_def one_entry_file_def
        magic_header_def bad_signature_iff)

text \<open>
  C9 as the spec has it fails for \<^verbatim>\<open>create\<close>: \<^verbatim>\<open>std::fopen(path, "w+b")\<close> truncates the
  file that exists at the path. A store file of capacity 4 (80 bytes) is 32 bytes long
  after \<^verbatim>\<open>create(path, 1)\<close> and the drop of the store, on either platform.
\<close>

theorem create_truncates_existing_file:
  "map_option len (files (single test_pmap (flat_file 80 (magic_header 8 4) 4)) test_pmap)
     = Some 80
   \<and> map_option len
         (files (fst (run Unix no_faults item_layout [Create test_pmap 1, Drop]
                        (single test_pmap (flat_file 80 (magic_header 8 4) 4), None))) test_pmap)
     = Some 32
   \<and> map_option len
         (files (fst (run Win32 no_faults item_layout [Create test_pmap 1, Drop]
                        (single test_pmap (flat_file 80 (magic_header 8 4) 4), None))) test_pmap)
     = Some 32"
  by (simp add: run_def os_defs storage_defs eval_simps single_def flat_file_def)

text \<open>
  The Win32 hypothesis cannot be dropped. \<^verbatim>\<open>mapped_file::create\<close> records 32 as the size
  of \<open>oversized_file\<close>, so \<^verbatim>\<open>open(path, 2)\<close> takes its \<open>2 ^ 32 + 32\<close> bytes for a store
  of capacity 1 and expands it: \<^verbatim>\<open>std::filesystem::resize_file\<close> cuts the file to 48
  bytes.
\<close>

lemma oversized_resize:
  "resize_file (sizeof_record item_layout) (zero_record item_layout) no_faults
       (single test_pmap oversized_file) test_pmap
       (size_t (sizeof_header + unat (2 :: 32 word) * sizeof_record item_layout))
     = (None, single test_pmap (flat_file 48 (magic_header 8 1) 2))"
  by (simp add: resize_file_def resize_image_def whole_records_def sizeof_header_def
        size_t_def no_faults_def single_def oversized_file_def flat_file_def magic_header_def
        item_layout_def zero_record_def)

lemma oversized_open:
  "storage_open Win32 no_faults item_layout (single test_pmap oversized_file) test_pmap 2
     = storage_expand Win32 no_faults item_layout (single test_pmap oversized_file) test_pmap 2"
  by (simp add: storage_open_def mapped_file_create_def dispose_def unmap_def close_handle_def
        acquire_def release_def no_faults_def sizeof_header_def size_t_def single_def
        oversized_file_def flat_file_def magic_header_def item_layout_def bad_signature_iff
        map_upd_triv)

lemma win32_oversized_file_cut:
  "wf_image (sizeof_record item_layout) oversized_file
   \<and> len oversized_file = 2 ^ 32 + 32
   \<and> map_option len (files (snd (storage_open Win32 no_faults item_layout
          (single test_pmap oversized_file) test_pmap 2)) test_pmap) = Some 48"
proof (intro conjI)
  show "wf_image (sizeof_record item_layout) oversized_file"
    by (simp add: wf_image_def whole_records_def sizeof_header_def item_layout_def
          oversized_file_def flat_file_def)
  show "len oversized_file = 2 ^ 32 + 32"
    by (simp add: oversized_file_def flat_file_def)
  show "map_option len (files (snd (storage_open Win32 no_faults item_layout
          (single test_pmap oversized_file) test_pmap 2)) test_pmap) = Some 48"
    unfolding oversized_open storage_expand_def oversized_resize
    by (simp add: os_defs storage_defs eval_simps single_def flat_file_def magic_header_def)
qed

section \<open>open with a larger capacity\<close>

lemma markers_differ: "marker_empty \<noteq> marker_occupied"
  by (simp add: marker_empty_def marker_occupied_def)

lemma fold_push_back:
  "length (elems v) + length xs \<le> reserved v
   \<Longrightarrow> fold push_back xs v = \<lparr>elems = elems v @ xs, reserved = reserved v\<rparr>"
proof (induction xs arbitrary: v)
  case Nil
  then show ?case by simp
next
  case (Cons x xs)
  have "push_back x v = \<lparr>elems = elems v @ [x], reserved = reserved v\<rparr>"
    using Cons.prems by (simp add: push_back_def)
  moreover have "length (elems (push_back x v)) + length xs \<le> reserved (push_back x v)"
    using Cons.prems by (simp add: push_back_def)
  ultimately show ?case
    using Cons.IH [of "push_back x v"] by simp
qed

lemma scan_valid:
  assumes "list_all (\<lambda>i. marker (rs ! unat i) = marker_empty \<or> marker (rs ! unat i) = marker_occupied) ws"
  shows "scan kf rs ws occ free =
           Inr (fold (\<lambda>i. AList.update (kf (data (rs ! unat i))) i)
                  (filter (\<lambda>i. marker (rs ! unat i) = marker_occupied) ws) occ,
                fold push_back (filter (\<lambda>i. marker (rs ! unat i) = marker_empty) ws) free)"
  using assms
proof (induction ws arbitrary: occ free)
  case Nil
  then show ?case by simp
next
  case (Cons i ws)
  then show ?case
    using markers_differ by (auto simp: markers_differ [symmetric])
qed

lemma update_fresh:
  "k \<notin> fst ` set al \<Longrightarrow> AList.update k v al = al @ [(k, v)]"
  by (induction al) auto

lemma fold_update_distinct:
  "distinct (map kf xs) \<Longrightarrow> kf ` set xs \<inter> fst ` set acc = {}
   \<Longrightarrow> fold (\<lambda>i. AList.update (kf i) i) xs acc = acc @ map (\<lambda>i. (kf i, i)) xs"
proof (induction xs arbitrary: acc)
  case Nil
  then show ?case by simp
next
  case (Cons x xs)
  from Cons.prems have fresh: "kf x \<notin> fst ` set acc" by auto
  have "kf ` set xs \<inter> fst ` set (acc @ [(kf x, x)]) = {}"
    using Cons.prems by auto
  with Cons.IH [of "acc @ [(kf x, x)]"] Cons.prems show ?case
    by (simp add: update_fresh [OF fresh])
qed

lemma map_of_keyed:
  "distinct (map kf xs) \<Longrightarrow> x \<in> set xs \<Longrightarrow> map_of (map (\<lambda>i. (kf i, i)) xs) (kf x) = Some x"
  by (induction xs) (auto simp: image_iff)

lemma word_range_zero: "word_range 0 (c :: 32 word) = map of_nat [0..<unat c]"
  by (simp add: word_range_def)

lemma unat_of_nat_range:
  "k < unat (c :: 32 word) \<Longrightarrow> unat (of_nat k :: 32 word) = k"
proof -
  assume "k < unat c"
  moreover have "unat c < 2 ^ 32" using unsigned_less [of c] by simp
  ultimately have "k < 2 ^ 32" by simp
  then show ?thesis by (simp add: unat_of_nat)
qed

lemma map_unat_word_range_zero: "map unat (word_range 0 (c :: 32 word)) = [0..<unat c]"
proof -
  have "map (\<lambda>k. unat (of_nat k :: 32 word)) [0..<unat c] = map (\<lambda>k. k) [0..<unat c]"
    by (rule map_cong) (simp_all add: unat_of_nat_range)
  then show ?thesis
    by (simp add: word_range_zero comp_def)
qed

lemma size_t_one:
  "r < 2 ^ 32 \<Longrightarrow> size_t (sizeof_header + r) = sizeof_header + r"
  by (simp add: size_t_def sizeof_header_def)

lemma mapped_no_faults:
  assumes "files w p = Some img" and "len img \<noteq> 0"
  shows "\<exists>mf w1. mapped_file_create plat no_faults w p = (Inr mf, w1) \<and> address mf = Some img
           \<and> ((plat = Win32 \<longrightarrow> len img < 2 ^ 32) \<longrightarrow> size_m mf = len img)"
  using assms
  by (cases plat) (simp_all add: mapped_file_create_def no_faults_def Let_def)

lemma resize_valid:
  assumes "length (recs img) = n" and "n \<le> m" and "0 < rsz" and "sizeof_header \<le> len img"
  shows "resize_image rsz zr (sizeof_header + m * rsz) img
         = \<lparr>len = sizeof_header + m * rsz, hdr = hdr img,
            recs = recs img @ replicate (m - n) zr\<rparr>"
proof -
  have "whole_records rsz (sizeof_header + m * rsz) = m"
    using assms(3) by (simp add: whole_records_def)
  moreover have "take m (recs img @ replicate m zr) = recs img @ replicate (m - n) zr"
    using assms(1,2) by simp
  ultimately show ?thesis
    using assms(4) by (simp add: resize_image_def)
qed

lemma fold_update_other:
  "\<forall>j \<in> set js. g j \<noteq> k \<Longrightarrow> fold (\<lambda>j xs. xs[g j := e]) js xs ! k = xs ! k"
  by (induction js arbitrary: xs) simp_all

lemma nth_via_indices:
  "length xs = n \<Longrightarrow> map (\<lambda>k. (xs @ ys) ! k) [0..<n] = xs"
  by (rule nth_equalityI) (auto simp: nth_append)

lemma length_fold_update:
  "length (fold (\<lambda>j ys. ys[g j := e]) js xs) = length xs"
  by (induction js arbitrary: xs) simp_all

lemma nth_fold_update:
  "k < length xs
   \<Longrightarrow> fold (\<lambda>j ys. ys[g j := e]) js xs ! k = (if k \<in> g ` set js then e else xs ! k)"
  by (induction js arbitrary: xs) (auto simp: nth_list_update)

text \<open>
  Expansion on open. \<^verbatim>\<open>storage::open(path, c)\<close> on a valid store file whose capacity is
  below \<open>c\<close>, when no system call fails, returns a store with the following properties.
  Its \<^verbatim>\<open>capacity()\<close> and the capacity its header declares are \<open>c\<close>; its \<^verbatim>\<open>size()\<close> is the
  number of occupied records of the file; its index holds exactly the keys of the occupied
  records, and every occupied record of the file is found under its key with its value.
  Its free stack holds the empty slots of the file in ascending order and above them the
  new slots, from the old capacity to \<open>c - 1\<close>. Its records are those of the file followed
  by \<open>c\<close> minus the old capacity empty records. The file itself has become header +
  \<open>c\<close> records long: the old header, the old records, and zero bytes after them.

  The statement is for a target whose \<^verbatim>\<open>std::size_t\<close> has 64 bits, a record size that is
  positive and below \<open>2 ^ 32\<close> (so that the size computations do not wrap), and on Win32 a
  file shorter than 4 GiB: \<^verbatim>\<open>GetFileSize(file, NULL)\<close> reports the low 32 bits of a length,
  and what \<^verbatim>\<open>open\<close> does with a longer file is the subject of the next section.
\<close>

theorem open_expands:
  assumes exists: "files w p = Some img"
    and valid: "valid_store_file L img"
    and grow: "capacity (hdr img) < c"
    and pos: "0 < sizeof_record L"
    and small: "sizeof_record L < 2 ^ 32"
    and win: "plat = Win32 \<longrightarrow> len img < 2 ^ 32"
  shows "\<exists>s w'. storage_open plat no_faults L w p c = (Inr s, w')
           \<and> storage_capacity s = unat c
           \<and> declared_capacity s = unat c
           \<and> storage_size s = length (filter occupied_record (recs img))
           \<and> map fst (occupied_indices s)
               = map (\<lambda>r. key_of L (data r)) (filter occupied_record (recs img))
           \<and> list_all (\<lambda>r. occupied_record r
                  \<longrightarrow> storage_find s (key_of L (data r)) = Some (data r)) (recs img)
           \<and> map unat (elems (free_indices s))
               = filter (\<lambda>k. marker (recs img ! k) = marker_empty)
                   [0..<unat (capacity (hdr img))]
                 @ [unat (capacity (hdr img))..<unat c]
           \<and> records s
               = recs img @ replicate (unat c - unat (capacity (hdr img))) (empty_record L)
           \<and> files w' p
               = Some \<lparr>len = sizeof_header + unat c * sizeof_record L, hdr = hdr img,
                        recs = recs img
                          @ replicate (unat c - unat (capacity (hdr img))) (zero_record L)\<rparr>"
proof -
  define n where "n = unat (capacity (hdr img))"
  define m where "m = unat c"
  define r where "r = sizeof_record L"
  define zr where "zr = zero_record L"
  define img2 where
    "img2 = \<lparr>len = sizeof_header + m * r, hdr = hdr img, recs = recs img @ replicate (m - n) zr\<rparr>"
  define ws where "ws = word_range 0 (capacity (hdr img))"
  define added where "added = word_range (capacity (hdr img)) c"
  define rs2 where "rs2 = recs img @ replicate (m - n) zr"
  define kf where "kf = (\<lambda>i :: 32 word. key_of L (data (rs2 ! unat i)))"
  define wsO where "wsO = filter (\<lambda>i. marker (rs2 ! unat i) = marker_occupied) ws"
  define wsE where "wsE = filter (\<lambda>i. marker (rs2 ! unat i) = marker_empty) ws"
  from valid have sig: "signature (hdr img) = (0xDA, 0x1A, 0xF1, 0x1E)"
    and item: "unat (item_size (hdr img)) = sizeof_value L"
    and cap0: "capacity (hdr img) \<noteq> 0"
    and len: "len img = sizeof_header + n * r"
    and recs: "length (recs img) = n"
    and marks: "list_all (\<lambda>x. marker x = marker_empty \<or> marker x = marker_occupied) (recs img)"
    and keys: "distinct (map (\<lambda>x. key_of L (data x)) (filter occupied_record (recs img)))"
    by (simp_all add: valid_store_file_def n_def r_def)
  from grow have nm: "n < m"
    by (simp add: word_less_nat_alt n_def m_def)
  from cap0 have n1: "1 \<le> n"
    by (simp add: n_def unat_eq_0 Suc_le_eq unat_gt_0)
  have rn: "r \<le> n * r"
    using n1 by simp
  have sz_new: "size_t (sizeof_header + unat c * sizeof_record L) = sizeof_header + m * r"
    using small by (simp add: size_t_small m_def r_def)
  have sz_old: "size_t (sizeof_header + unat (capacity (hdr img)) * sizeof_record L)
                  = sizeof_header + n * r"
    using small by (simp add: size_t_small n_def r_def)
  have sz_one: "size_t (sizeof_header + sizeof_record L) = sizeof_header + r"
    using small by (simp add: size_t_one r_def)
  have len0: "len img \<noteq> 0"
    using len by (simp add: sizeof_header_def)
  from mapped_no_faults [OF exists len0, of plat] win obtain mf w1 where
    mc: "mapped_file_create plat no_faults w p = (Inr mf, w1)"
    and view: "address mf = Some img" and msize: "size_m mf = len img"
    by blast
  from mapped_create_dispose [OF mc] have disp: "dispose plat w1 mf = w" .
  have c1: "\<not> len img < size_t (sizeof_header + sizeof_record L)"
    unfolding len sz_one using n1 by auto
  have c3: "size_t (sizeof_header + unat (capacity (hdr img)) * sizeof_record L) = len img"
    unfolding len sz_old by (rule refl)
  have open_eq: "storage_open plat no_faults L w p c = storage_expand plat no_faults L w p c"
    using grow
    by (simp add: storage_open_def mc view msize c1 c3 bad_signature_iff sig item disp)
  have resized: "resize_image (sizeof_record L) (zero_record L) (sizeof_header + m * r) img = img2"
    using resize_valid [of img n m r zr] recs nm pos len
    by (simp add: img2_def r_def zr_def)
  have rz: "resize_file (sizeof_record L) (zero_record L) no_faults w p
              (size_t (sizeof_header + unat c * sizeof_record L))
            = (None, w\<lparr>files := (files w)(p \<mapsto> img2)\<rparr>)"
    by (simp add: resize_file_def no_faults_def exists sz_new resized)
  have "len img2 \<noteq> 0"
    by (simp add: img2_def sizeof_header_def)
  from mapped_no_faults [of "w\<lparr>files := (files w)(p \<mapsto> img2)\<rparr>" p img2, OF _ this, of plat]
  obtain mf2 w2 where
    mc2: "mapped_file_create plat no_faults (w\<lparr>files := (files w)(p \<mapsto> img2)\<rparr>) p = (Inr mf2, w2)"
    and view2: "address mf2 = Some img2"
    by auto
  have idx: "map unat ws = [0..<n]"
    by (simp add: ws_def n_def map_unat_word_range_zero)
  then have lws: "length ws = n"
    by (metis length_map length_upt diff_zero)
  have through: "map (\<lambda>i. rs2 ! unat i) ws = recs img"
  proof -
    have "map (\<lambda>i. rs2 ! unat i) ws = map (\<lambda>k. rs2 ! k) (map unat ws)"
      by (simp add: comp_def)
    also have "\<dots> = recs img"
      unfolding idx rs2_def using recs by (rule nth_via_indices)
    finally show ?thesis .
  qed
  have marks_ws: "list_all (\<lambda>i. marker (rs2 ! unat i) = marker_empty
                        \<or> marker (rs2 ! unat i) = marker_occupied) ws"
    using marks unfolding through [symmetric] by (simp add: list_all_iff)
  have scanned: "scan (key_of L) rs2 ws [] (reserve m vector_new)
                   = Inr (fold (\<lambda>i. AList.update (kf i) i) wsO [],
                          fold push_back wsE (reserve m vector_new))"
    using scan_valid [OF marks_ws] by (simp add: kf_def wsO_def wsE_def)
  define s where
    "s = \<lparr>occupied_indices = fold (\<lambda>i. AList.update (kf i) i) wsO [],
          free_indices = fold push_back added (fold push_back wsE (reserve m vector_new)),
          mfile = mf2\<lparr>address :=
            Some (img2\<lparr>hdr := (hdr img2)\<lparr>capacity := c\<rparr>,
                       recs := fold (\<lambda>i xs. xs[unat i := empty_record L]) added rs2\<rparr>)\<rparr>\<rparr>"
  have r2: "recs img2 = rs2" "hdr img2 = hdr img"
    by (simp_all add: img2_def rs2_def)
  have expanded: "storage_expand plat no_faults L w p c = (Inr s, w2)"
    by (simp add: storage_expand_def rz mc2 view2 r2 Let_def s_def scanned [unfolded m_def]
          ws_def [symmetric] added_def [symmetric] m_def)
  have occ_keys: "map kf wsO = map (\<lambda>x. key_of L (data x)) (filter occupied_record (recs img))"
  proof -
    have "filter occupied_record (map (\<lambda>i. rs2 ! unat i) ws)
            = map (\<lambda>i. rs2 ! unat i) wsO"
      by (simp add: filter_map comp_def wsO_def occupied_record_def)
    then show ?thesis
      by (simp add: through kf_def comp_def)
  qed
  with keys have dist: "distinct (map kf wsO)"
    by simp
  have occ: "occupied_indices s = map (\<lambda>i. (kf i, i)) wsO"
    using fold_update_distinct [OF dist, of "[]"] by (simp add: s_def)
  have size: "storage_size s = length (filter occupied_record (recs img))"
  proof -
    have "length (map kf wsO) = length (filter occupied_record (recs img))"
      by (simp only: occ_keys length_map)
    then show ?thesis
      by (simp add: storage_size_def occ)
  qed
  have ladded: "length added = m - n"
    using grow by (simp add: added_def word_range_def unat_sub m_def n_def)
  have lE: "length wsE \<le> n"
    using lws by (simp add: wsE_def) (metis length_filter_le)
  have free1: "fold push_back wsE (reserve m vector_new) = \<lparr>elems = wsE, reserved = m\<rparr>"
    using fold_push_back [of "reserve m vector_new" wsE] lE nm
    by (simp add: reserve_def vector_new_def)
  have free2: "free_indices s = \<lparr>elems = wsE @ added, reserved = m\<rparr>"
    using fold_push_back [of "\<lparr>elems = wsE, reserved = m\<rparr>" added] lE nm ladded
    by (simp add: s_def free1)
  have capacity: "storage_capacity s = unat c"
    by (simp add: storage_capacity_def free2 m_def)
  have unats: "map unat added = [n..<m]"
    using grow by (simp add: added_def map_unat_word_range n_def m_def)
  have kept_rec: "records s ! unat i = rs2 ! unat i" if "i \<in> set ws" for i
  proof -
    from that idx have "unat i \<in> set [0..<n]"
      by (metis image_eqI set_map)
    then have "unat i < n" by simp
    moreover have "\<forall>j \<in> set added. n \<le> unat j"
    proof
      fix j assume "j \<in> set added"
      then have "unat j \<in> set (map unat added)" by simp
      then show "n \<le> unat j" unfolding unats by simp
    qed
    ultimately have "\<forall>j \<in> set added. unat j \<noteq> unat i"
      by fastforce
    from fold_update_other [OF this, of "empty_record L" rs2]
    show ?thesis
      by (simp add: records_def s_def)
  qed
  have found: "storage_find s (key_of L (data x)) = Some (data x)"
    if "x \<in> set (recs img)" and "occupied_record x" for x
  proof -
    from that(1) through obtain i where i: "i \<in> set ws" "rs2 ! unat i = x"
      by (metis (no_types, lifting) imageE set_map)
    with that(2) have iO: "i \<in> set wsO"
      by (simp add: wsO_def occupied_record_def)
    from map_of_keyed [OF dist iO] have "map_of (occupied_indices s) (kf i) = Some i"
      by (simp add: occ)
    moreover have "kf i = key_of L (data x)"
      using i by (simp add: kf_def)
    ultimately show ?thesis
      using kept_rec [OF i(1)] i(2) by (simp add: storage_find_def)
  qed
  have all: "list_all (\<lambda>x. occupied_record x
          \<longrightarrow> storage_find s (key_of L (data x)) = Some (data x)) (recs img)"
    using found by (simp add: list_all_iff)
  have decl: "declared_capacity s = unat c"
    by (simp add: declared_capacity_def s_def)
  have index_keys: "map fst (occupied_indices s)
      = map (\<lambda>x. key_of L (data x)) (filter occupied_record (recs img))"
    using occ_keys by (simp add: occ comp_def)
  have free_old: "map unat wsE = filter (\<lambda>k. marker (recs img ! k) = marker_empty) [0..<n]"
  proof -
    have "map unat wsE = filter (\<lambda>k. marker (rs2 ! k) = marker_empty) (map unat ws)"
      by (simp add: wsE_def filter_map comp_def)
    also have "\<dots> = filter (\<lambda>k. marker (recs img ! k) = marker_empty) [0..<n]"
      unfolding idx by (rule filter_cong) (simp_all add: rs2_def nth_append recs)
    finally show ?thesis .
  qed
  have free_all: "map unat (elems (free_indices s))
      = filter (\<lambda>k. marker (recs img ! k) = marker_empty) [0..<n] @ [n..<m]"
    by (simp add: free2 free_old unats)
  have recs_s: "records s = recs img @ replicate (m - n) (empty_record L)"
  proof (rule nth_equalityI)
    have rs: "records s = fold (\<lambda>i xs. xs[unat i := empty_record L]) added rs2"
      by (simp add: records_def s_def)
    show "length (records s) = length (recs img @ replicate (m - n) (empty_record L))"
      by (simp add: rs length_fold_update rs2_def)
    fix k assume "k < length (records s)"
    then have k: "k < length rs2"
      by (simp add: rs length_fold_update)
    have "unat ` set added = set (map unat added)" by simp
    also have "\<dots> = {n..<m}" unfolding unats by simp
    finally have img: "unat ` set added = {n..<m}" .
    from k have km: "k < n + (m - n)"
      by (simp add: rs2_def recs)
    have "records s ! k = (if k \<in> {n..<m} then empty_record L else rs2 ! k)"
      unfolding rs nth_fold_update [OF k] img ..
    then show "records s ! k = (recs img @ replicate (m - n) (empty_record L)) ! k"
      using km nm by (simp add: rs2_def nth_append recs)
  qed
  have "files w2 = files (w\<lparr>files := (files w)(p \<mapsto> img2)\<rparr>)"
    using files_mapped_file_create [of plat no_faults "w\<lparr>files := (files w)(p \<mapsto> img2)\<rparr>" p] mc2
    by simp
  then have file_after: "files w2 p = Some img2"
    by simp
  have opened: "storage_open plat no_faults L w p c = (Inr s, w2)"
    using open_eq expanded by simp
  show ?thesis
    using opened capacity decl size index_keys all
      free_all [unfolded n_def m_def] recs_s [unfolded n_def m_def]
      file_after [unfolded img2_def n_def m_def r_def zr_def]
    by (intro exI conjI)
qed

theorem open_expands_witness:
  "\<exists>s w'. storage_open Win32 no_faults item_layout (single test_pmap one_entry_file) test_pmap 2
             = (Inr s, w')
          \<and> storage_capacity s = 2
          \<and> declared_capacity s = 2
          \<and> storage_size s = 1
          \<and> map fst (occupied_indices s) = [1]
          \<and> storage_find s 1 = Some (1, 1)
          \<and> map unat (elems (free_indices s)) = [1]
          \<and> records s = [\<lparr>marker = 0xFEEDDA1A, data = (1, 1)\<rparr>, \<lparr>marker = 0, data = (0, 0)\<rparr>]
          \<and> files w' test_pmap
              = Some \<lparr>len = 48, hdr = magic_header 8 1,
                       recs = [\<lparr>marker = 0xFEEDDA1A, data = (1, 1)\<rparr>,
                               \<lparr>marker = 0, data = (0, 0)\<rparr>]\<rparr>"
  using open_expands [of "single test_pmap one_entry_file" test_pmap one_entry_file item_layout 2 Win32]
  by (simp add: single_def one_entry_file_def valid_store_file_def magic_header_def item_layout_def
        sizeof_header_def occupied_record_def marker_occupied_def marker_empty_def
        empty_record_def zero_record_def upt_conv_Cons)

section \<open>open on a store file of 4 GiB and more\<close>

lemma large_store_file_valid: "valid_store_file item_layout large_store_file"
  by (simp add: valid_store_file_def large_store_file_def flat_file_def magic_header_def
        item_layout_def sizeof_header_def marker_empty_def occupied_record_def
        marker_occupied_def list_all_iff)

text \<open>
  C5 fails on Win32 for a store file of 4 GiB or more, on a target whose \<^verbatim>\<open>std::size_t\<close>
  has 64 bits. \<open>large_store_file\<close> is a valid store file of capacity \<open>2 ^ 28 + 1\<close>,
  \<open>2 ^ 32 + 32\<close> bytes long, and \<^verbatim>\<open>open\<close> is called with capacity \<open>2 ^ 28 + 2\<close> while no
  system call fails. \<^verbatim>\<open>mapped_file::create\<close> records the size
  \<^verbatim>\<open>GetFileSize(file, NULL)\<close> returns, the low 32 bits of the length: 32. \<^verbatim>\<open>storage::open\<close>
  passes the checks of the minimal size and of the signature, compares 32 with
  \<open>16 + (2 ^ 28 + 1) * 16\<close>, and returns \<^verbatim>\<open>mismatch_file_size\<close>: the store is not
  expanded, and the file is left as it was.
\<close>

theorem win32_large_store_rejected:
  "valid_store_file item_layout large_store_file
   \<and> len large_store_file = 2 ^ 32 + 32
   \<and> capacity (hdr large_store_file) < 268435458
   \<and> storage_open Win32 no_faults item_layout (single test_pmap large_store_file) test_pmap
        268435458
      = (Inl (make_error_code mismatch_file_size), single test_pmap large_store_file)"
proof (intro conjI)
  show "valid_store_file item_layout large_store_file"
    by (rule large_store_file_valid)
  show "len large_store_file = 2 ^ 32 + 32"
    by (simp add: large_store_file_def flat_file_def)
  show "capacity (hdr large_store_file) < 268435458"
    by (simp add: large_store_file_def flat_file_def magic_header_def)
  show "storage_open Win32 no_faults item_layout (single test_pmap large_store_file) test_pmap
        268435458
      = (Inl (make_error_code mismatch_file_size), single test_pmap large_store_file)"
    by (simp add: storage_open_def os_defs storage_defs single_def large_store_file_def
          flat_file_def magic_header_def item_layout_def bad_signature_iff map_upd_triv)
qed

text \<open>
  The POSIX branch reads \<^verbatim>\<open>st_size\<close> in full: there the same call expands the store.
\<close>

lemma unix_large_store_expands:
  "\<exists>s w'. storage_open Unix no_faults item_layout (single test_pmap large_store_file) test_pmap
             268435458 = (Inr s, w')
          \<and> storage_capacity s = 268435458
          \<and> storage_size s = 0
          \<and> map_option len (files w' test_pmap) = Some (2 ^ 32 + 48)"
  using open_expands [of "single test_pmap large_store_file" test_pmap large_store_file
      item_layout 268435458 Unix] large_store_file_valid
  by (auto simp: single_def item_layout_def large_store_file_def flat_file_def magic_header_def
        sizeof_header_def occupied_record_def marker_occupied_def)

end
